theory Spec2Isabelle
  imports Main "HOL-Library.Signed_Division"
begin

section \<open>Calendar and clock conversion (velox/type/TimestampConversion.cpp)\<close>

text \<open>
  A shallow embedding of the conversion functions of \<^verbatim>\<open>TimestampConversion.cpp\<close>.
  C++ integers are modelled as \<^typ>\<open>int\<close>; the operators \<^verbatim>\<open>/\<close> and \<^verbatim>\<open>%\<close> of C++
  truncate towards zero and are written \<open>sdiv\<close> and \<open>smod\<close>. Where the source narrows a
  64-bit value to 32 bits the wrap-around is written out (\<open>narrow32\<close>); where it uses the
  checked arithmetic of \<^verbatim>\<open>CheckedArithmetic.h\<close> the overflow is a value of the model.
  A character buffer \<^verbatim>\<open>(buf, len)\<close> is a \<^typ>\<open>string\<close> with \<open>len = length buf\<close>, and the
  scan position \<^verbatim>\<open>pos\<close> is a \<^typ>\<open>nat\<close> that every function returns next to its result.
\<close>

subsection \<open>Constants and types of the headers\<close>

text \<open>
  The year limits \<^verbatim>\<open>kMinYear\<close> and \<^verbatim>\<open>kMaxYear\<close> are declared in
  \<^verbatim>\<open>TimestampConversion.h\<close>, and \<^verbatim>\<open>threadSkipErrorDetails()\<close> reads a thread-local flag
  declared in \<^verbatim>\<open>Status.h\<close>. They are parameters of the model, collected in one record.
\<close>

record Env =
  kMinYear :: int
  kMaxYear :: int
  threadSkipErrorDetails :: bool

text \<open>The range of a 32-bit signed value (\<^verbatim>\<open>int32_t\<close>), the type of the limits.\<close>

definition int32Min :: int where "int32Min = - 2147483648"
definition int32Max :: int where "int32Max = 2147483647"

definition isInt32 :: "int \<Rightarrow> bool" where
  "isInt32 x = (int32Min \<le> x \<and> x \<le> int32Max)"

text \<open>The limits of a 64-bit count of milliseconds, used to evaluate the model.\<close>

definition sampleEnv :: Env where
  "sampleEnv = \<lparr>kMinYear = - 292275055, kMaxYear = 292278994, threadSkipErrorDetails = False\<rparr>"

text \<open>
  Modelled from the spec: the unit constants of \<^verbatim>\<open>TimestampConversion.h\<close>, which is not
  part of the sources. Their values are the ones their names state; \<^verbatim>\<open>kYearInterval\<close> and
  \<^verbatim>\<open>kDaysPerYearInterval\<close> are the 400 years and 146097 days that the table
  \<^verbatim>\<open>kCumulativeYearDays\<close> (401 entries, the last one 146097) is built for.
\<close>

definition kMinsPerHour :: int where "kMinsPerHour = 60"
definition kSecsPerMinute :: int where "kSecsPerMinute = 60"
definition kSecsPerDay :: int where "kSecsPerDay = 86400"
definition kMicrosPerSec :: int where "kMicrosPerSec = 1000000"
definition kNanosPerMicro :: int where "kNanosPerMicro = 1000"
definition kMillisPerSecond :: int where "kMillisPerSecond = 1000"
definition kMillisPerMinute :: int where "kMillisPerMinute = 60000"
definition kMillisPerHour :: int where "kMillisPerHour = 3600000"
definition kYearInterval :: int where "kYearInterval = 400"
definition kDaysPerYearInterval :: int where "kDaysPerYearInterval = 146097"

text \<open>
  \<^verbatim>\<open>Status::UserError\<close> is the one kind of error of this layer; the payload is the
  message, of which the model keeps which one it is. \<open>NoDetails\<close> is the error without a
  message that is built when \<^verbatim>\<open>threadSkipErrorDetails()\<close> holds.
\<close>

datatype ParseMode = kStrict | kNonStrict | kPrestoCast | kSparkCast | kIso8601

datatype TimestampParseMode = kTsPrestoCast | kTsLegacyCast | kTsSparkCast | kTsIso8601

datatype Message =
    NoDetails
  | DateOutOfRange
  | DayOfYearOutOfRange
  | UnableToParseDate ParseMode
  | UnableToParseTimestamp
  | UnknownTimezoneValue string

datatype Status = UserError Message

text \<open>
  What a call can do besides returning: \<^verbatim>\<open>checkedPlus\<close>, \<^verbatim>\<open>checkedMultiply\<close> and
  \<^verbatim>\<open>checkedNegate\<close> throw on overflow, and \<^verbatim>\<open>VELOX_UNREACHABLE()\<close> is the failure of
  an internal assertion.
\<close>

datatype Thrown = ArithmeticOverflow | Unreachable

record Timestamp =
  getSeconds :: int
  getNanos :: int

text \<open>The implicit conversion of a 64-bit value to \<^verbatim>\<open>int32_t\<close> keeps the low 32 bits.\<close>

definition narrow32 :: "int \<Rightarrow> int" where
  "narrow32 x = (x + 2147483648) mod 4294967296 - 2147483648"

text \<open>
  Modelled from the spec: the checked arithmetic of \<^verbatim>\<open>CheckedArithmetic.h\<close>, which is not
  part of the sources: add, multiply and negate on \<^verbatim>\<open>int32_t\<close> that signal overflow
  instead of wrapping.
\<close>

definition checkedPlus :: "int \<Rightarrow> int \<Rightarrow> Thrown + int" where
  "checkedPlus a b = (if isInt32 (a + b) then Inr (a + b) else Inl ArithmeticOverflow)"

definition checkedMultiply :: "int \<Rightarrow> int \<Rightarrow> Thrown + int" where
  "checkedMultiply a b = (if isInt32 (a * b) then Inr (a * b) else Inl ArithmeticOverflow)"

definition checkedNegate :: "int \<Rightarrow> Thrown + int" where
  "checkedNegate a = (if isInt32 (- a) then Inr (- a) else Inl ArithmeticOverflow)"

subsection \<open>Tables\<close>

definition kLeapDays :: "int list" where
  "kLeapDays = [0, 31, 29, 31, 30, 31, 30, 31, 31, 30, 31, 30, 31]"

definition kNormalDays :: "int list" where
  "kNormalDays = [0, 31, 28, 31, 30, 31, 30, 31, 31, 30, 31, 30, 31]"

definition kCumulativeDays :: "int list" where
  "kCumulativeDays = [0, 31, 59, 90, 120, 151, 181, 212, 243, 273, 304, 334, 365]"

definition kCumulativeLeapDays :: "int list" where
  "kCumulativeLeapDays = [0, 31, 60, 91, 121, 152, 182, 213, 244, 274, 305, 335, 366]"

definition kCumulativeYearDays :: "int list" where
  "kCumulativeYearDays = [
    0, 365, 730, 1096, 1461, 1826, 2191, 2557, 2922, 3287,
    3652, 4018, 4383, 4748, 5113, 5479, 5844, 6209, 6574, 6940,
    7305, 7670, 8035, 8401, 8766, 9131, 9496, 9862, 10227, 10592,
    10957, 11323, 11688, 12053, 12418, 12784, 13149, 13514, 13879, 14245,
    14610, 14975, 15340, 15706, 16071, 16436, 16801, 17167, 17532, 17897,
    18262, 18628, 18993, 19358, 19723, 20089, 20454, 20819, 21184, 21550,
    21915, 22280, 22645, 23011, 23376, 23741, 24106, 24472, 24837, 25202,
    25567, 25933, 26298, 26663, 27028, 27394, 27759, 28124, 28489, 28855,
    29220, 29585, 29950, 30316, 30681, 31046, 31411, 31777, 32142, 32507,
    32872, 33238, 33603, 33968, 34333, 34699, 35064, 35429, 35794, 36160,
    36525, 36890, 37255, 37621, 37986, 38351, 38716, 39082, 39447, 39812,
    40177, 40543, 40908, 41273, 41638, 42004, 42369, 42734, 43099, 43465,
    43830, 44195, 44560, 44926, 45291, 45656, 46021, 46387, 46752, 47117,
    47482, 47847, 48212, 48577, 48942, 49308, 49673, 50038, 50403, 50769,
    51134, 51499, 51864, 52230, 52595, 52960, 53325, 53691, 54056, 54421,
    54786, 55152, 55517, 55882, 56247, 56613, 56978, 57343, 57708, 58074,
    58439, 58804, 59169, 59535, 59900, 60265, 60630, 60996, 61361, 61726,
    62091, 62457, 62822, 63187, 63552, 63918, 64283, 64648, 65013, 65379,
    65744, 66109, 66474, 66840, 67205, 67570, 67935, 68301, 68666, 69031,
    69396, 69762, 70127, 70492, 70857, 71223, 71588, 71953, 72318, 72684,
    73049, 73414, 73779, 74145, 74510, 74875, 75240, 75606, 75971, 76336,
    76701, 77067, 77432, 77797, 78162, 78528, 78893, 79258, 79623, 79989,
    80354, 80719, 81084, 81450, 81815, 82180, 82545, 82911, 83276, 83641,
    84006, 84371, 84736, 85101, 85466, 85832, 86197, 86562, 86927, 87293,
    87658, 88023, 88388, 88754, 89119, 89484, 89849, 90215, 90580, 90945,
    91310, 91676, 92041, 92406, 92771, 93137, 93502, 93867, 94232, 94598,
    94963, 95328, 95693, 96059, 96424, 96789, 97154, 97520, 97885, 98250,
    98615, 98981, 99346, 99711, 100076, 100442, 100807, 101172, 101537, 101903,
    102268, 102633, 102998, 103364, 103729, 104094, 104459, 104825, 105190, 105555,
    105920, 106286, 106651, 107016, 107381, 107747, 108112, 108477, 108842, 109208,
    109573, 109938, 110303, 110669, 111034, 111399, 111764, 112130, 112495, 112860,
    113225, 113591, 113956, 114321, 114686, 115052, 115417, 115782, 116147, 116513,
    116878, 117243, 117608, 117974, 118339, 118704, 119069, 119435, 119800, 120165,
    120530, 120895, 121260, 121625, 121990, 122356, 122721, 123086, 123451, 123817,
    124182, 124547, 124912, 125278, 125643, 126008, 126373, 126739, 127104, 127469,
    127834, 128200, 128565, 128930, 129295, 129661, 130026, 130391, 130756, 131122,
    131487, 131852, 132217, 132583, 132948, 133313, 133678, 134044, 134409, 134774,
    135139, 135505, 135870, 136235, 136600, 136966, 137331, 137696, 138061, 138427,
    138792, 139157, 139522, 139888, 140253, 140618, 140983, 141349, 141714, 142079,
    142444, 142810, 143175, 143540, 143905, 144271, 144636, 145001, 145366, 145732,
    146097]"

subsection \<open>Calendar engine\<close>

definition isLeapYear :: "int \<Rightarrow> bool" where
  "isLeapYear year = (year smod 4 = 0 \<and> (year smod 100 \<noteq> 0 \<or> year smod 400 = 0))"

definition isValidDate :: "Env \<Rightarrow> int \<Rightarrow> int \<Rightarrow> int \<Rightarrow> bool" where
  "isValidDate E year month day =
     (if month < 1 \<or> month > 12 then False
      else if year < kMinYear E \<or> year > kMaxYear E then False
      else if day < 1 then False
      else if isLeapYear year then day \<le> kLeapDays ! nat month
      else day \<le> kNormalDays ! nat month)"

definition getMaxDayOfMonth :: "int \<Rightarrow> int \<Rightarrow> int" where
  "getMaxDayOfMonth year month =
     (if isLeapYear year then kLeapDays ! nat month else kNormalDays ! nat month)"

text \<open>
  The two loops of \<^verbatim>\<open>daysSinceEpochFromDate\<close>, on the pair of the year and the day count
  accumulated so far.
\<close>

function yearsBelowWindow :: "int \<times> int \<Rightarrow> int \<times> int" where
  "yearsBelowWindow (year, daysSinceEpoch) =
     (if year < 1970
      then yearsBelowWindow (year + kYearInterval, daysSinceEpoch - kDaysPerYearInterval)
      else (year, daysSinceEpoch))"
  by pat_completeness auto
termination
  by (relation "measure (\<lambda>(year, d). nat (1970 - year))") (auto simp: kYearInterval_def)

declare yearsBelowWindow.simps [simp del]

function yearsAboveWindow :: "int \<times> int \<Rightarrow> int \<times> int" where
  "yearsAboveWindow (year, daysSinceEpoch) =
     (if year \<ge> 2370
      then yearsAboveWindow (year - kYearInterval, daysSinceEpoch + kDaysPerYearInterval)
      else (year, daysSinceEpoch))"
  by pat_completeness auto
termination
  by (relation "measure (\<lambda>(year, d). nat (year - 1969))") (auto simp: kYearInterval_def)

declare yearsAboveWindow.simps [simp del]

definition daysSinceEpochFromDate :: "Env \<Rightarrow> int \<Rightarrow> int \<Rightarrow> int \<Rightarrow> Status + int" where
  "daysSinceEpochFromDate E year month day =
     (if \<not> isValidDate E year month day then
        (if threadSkipErrorDetails E then Inl (UserError NoDetails)
         else Inl (UserError DateOutOfRange))
      else
        (case yearsAboveWindow (yearsBelowWindow (year, 0)) of (year', daysSinceEpoch) \<Rightarrow>
           Inr (daysSinceEpoch + kCumulativeYearDays ! nat (year' - 1970)
                + (if isLeapYear year' then kCumulativeLeapDays ! nat (month - 1)
                   else kCumulativeDays ! nat (month - 1))
                + (day - 1))))"

definition extractISODayOfTheWeek :: "int \<Rightarrow> int" where
  "extractISODayOfTheWeek daysSinceEpoch =
     (if daysSinceEpoch < 0 then 7 - ((- daysSinceEpoch + 3) smod 7)
      else ((daysSinceEpoch + 3) smod 7) + 1)"

definition isValidWeekDate :: "Env \<Rightarrow> int \<Rightarrow> int \<Rightarrow> int \<Rightarrow> bool" where
  "isValidWeekDate E weekYear weekOfYear dayOfWeek =
     (if dayOfWeek < 1 \<or> dayOfWeek > 7 then False
      else if weekOfYear < 1 \<or> weekOfYear > 52 then False
      else if weekYear < kMinYear E \<or> weekYear > kMaxYear E then False
      else True)"

definition daysSinceEpochFromWeekDate :: "Env \<Rightarrow> int \<Rightarrow> int \<Rightarrow> int \<Rightarrow> Status + int" where
  "daysSinceEpochFromWeekDate E weekYear weekOfYear dayOfWeek =
     (if \<not> isValidWeekDate E weekYear weekOfYear dayOfWeek then
        (if threadSkipErrorDetails E then Inl (UserError NoDetails)
         else Inl (UserError DateOutOfRange))
      else
        (case daysSinceEpochFromDate E weekYear 1 4 of
           Inl e \<Rightarrow> Inl e
         | Inr daysSinceEpochOfJanFourth \<Rightarrow>
             (let firstDayOfWeekYear = extractISODayOfTheWeek daysSinceEpochOfJanFourth
              in Inr (daysSinceEpochOfJanFourth - (firstDayOfWeekYear - 1)
                      + 7 * (weekOfYear - 1) + dayOfWeek - 1))))"


subsection \<open>Lexical scanners\<close>

definition characterIsSpace :: "char \<Rightarrow> bool" where
  "characterIsSpace c = (c = CHR '' '' \<or> c = CHR 0x09 \<or> c = CHR 0x0A \<or> c = CHR 0x0B \<or>
     c = CHR 0x0C \<or> c = CHR 0x0D)"

definition characterIsDigit :: "char \<Rightarrow> bool" where
  "characterIsDigit c = ((48::nat) \<le> of_char c \<and> of_char c \<le> (57::nat))"

text \<open>The value \<^verbatim>\<open>c - '0'\<close> of a character.\<close>

definition digitValue :: "char \<Rightarrow> int" where
  "digitValue c = of_char c - 48"

text \<open>
  \<^verbatim>\<open>parseDoubleDigit\<close> returns the new position and the number read, or \<open>None\<close> where
  the source returns false (and leaves both untouched).
\<close>

definition parseDoubleDigit :: "string \<Rightarrow> nat \<Rightarrow> (nat \<times> int) option" where
  "parseDoubleDigit buf pos =
     (if pos < length buf \<and> characterIsDigit (buf ! pos) then
        (let result = digitValue (buf ! pos); pos = pos + 1 in
         if pos < length buf \<and> characterIsDigit (buf ! pos)
         then Some (pos + 1, digitValue (buf ! pos) + result * 10)
         else Some (pos, result))
      else None)"

definition validDate :: "int \<Rightarrow> bool" where
  "validDate daysSinceEpoch = (daysSinceEpoch \<ge> int32Min \<and> daysSinceEpoch \<le> int32Max)"

function skipSpaces :: "string \<Rightarrow> nat \<Rightarrow> nat" where
  "skipSpaces buf pos =
     (if pos < length buf \<and> characterIsSpace (buf ! pos) then skipSpaces buf (pos + 1) else pos)"
  by pat_completeness auto
termination
  by (relation "measure (\<lambda>(buf, pos). length buf - pos)") auto

declare skipSpaces.simps [simp del]

subsection \<open>Week-of-month validation\<close>

text \<open>
  \<^verbatim>\<open>ceil(n / 7.0)\<close> for an integer \<open>n\<close>: the quotient of two small integers in double
  precision is exact when it is whole and strictly between two integers otherwise, so the
  ceiling is the integer one.
\<close>

definition ceilDiv7 :: "int \<Rightarrow> int" where
  "ceilDiv7 n = - ((- n) div 7)"

definition isValidWeekOfMonthDate :: "Env \<Rightarrow> int \<Rightarrow> int \<Rightarrow> int \<Rightarrow> int \<Rightarrow> bool" where
  "isValidWeekOfMonthDate E year month weekOfMonth dayOfWeek =
     (if year < 1 \<or> year > kMaxYear E then False
      else if month < 1 \<or> month > 12 then False
      else
        (case daysSinceEpochFromDate E year month 1 of
           Inl e \<Rightarrow> False
         | Inr daysSinceEpochOfFirstDayOfMonth \<Rightarrow>
             (let firstDayOfWeek = extractISODayOfTheWeek daysSinceEpochOfFirstDayOfMonth;
                  firstWeekLength = 7 - firstDayOfWeek + 1;
                  monthLength = (if isLeapYear year then kLeapDays ! nat month
                                 else kNormalDays ! nat month);
                  actualWeeks = 1 + ceilDiv7 (monthLength - firstWeekLength)
              in
                if weekOfMonth < 1 \<or> weekOfMonth > actualWeeks then False
                else if weekOfMonth = 1 \<and> dayOfWeek < firstDayOfWeek then False
                else
                  (let lastWeekLength = (monthLength - firstWeekLength) smod 7 in
                   if weekOfMonth = actualWeeks \<and> lastWeekLength \<noteq> 0 \<and>
                      dayOfWeek > lastWeekLength
                   then False
                   else True))))"

text \<open>
  \<^verbatim>\<open>daysSinceEpochFromWeekOfMonthDate\<close>. Its arguments are \<^verbatim>\<open>int32_t\<close>, and five of its
  operations can leave the 32-bit range: \<^verbatim>\<open>abs(month)\<close>, \<^verbatim>\<open>year += additionYears\<close>,
  \<^verbatim>\<open>dayOfWeek - 1\<close> and its \<^verbatim>\<open>abs\<close>, and \<^verbatim>\<open>weekOfMonth - 1\<close> and its product with 7.
  C++ leaves a signed overflow undefined; the model writes out the wrap-around of two's
  complement (\<open>narrow32\<close>) at each of them. The final sum is a 64-bit one.
\<close>

definition daysSinceEpochFromWeekOfMonthDate ::
  "Env \<Rightarrow> int \<Rightarrow> int \<Rightarrow> int \<Rightarrow> int \<Rightarrow> bool \<Rightarrow> Status + int" where
  "daysSinceEpochFromWeekOfMonthDate E year month weekOfMonth dayOfWeek lenient =
     (if \<not> lenient \<and> \<not> isValidWeekOfMonthDate E year month weekOfMonth dayOfWeek then
        (if threadSkipErrorDetails E then Inl (UserError NoDetails)
         else Inl (UserError DateOutOfRange))
      else
        (case (if month < 1 then (month sdiv 12 - 1, 12 - narrow32 \<bar>month\<bar> smod 12)
               else if month > 12 then ((month - 1) sdiv 12, (month - 1) smod 12 + 1)
               else (0, month)) of
           (additionYears, month') \<Rightarrow>
             (case daysSinceEpochFromDate E (narrow32 (year + additionYears)) month' 1 of
                Inl e \<Rightarrow> Inl e
              | Inr daysSinceEpochOfFirstDayOfMonth \<Rightarrow>
                  (let firstDayOfWeek = extractISODayOfTheWeek daysSinceEpochOfFirstDayOfMonth;
                       days = (if dayOfWeek < 1
                               then 7 - narrow32 \<bar>narrow32 (dayOfWeek - 1)\<bar> smod 7
                               else if dayOfWeek > 7 then (dayOfWeek - 1) smod 7
                               else dayOfWeek smod 7)
                   in Inr (daysSinceEpochOfFirstDayOfMonth - (firstDayOfWeek - 1)
                           + narrow32 (7 * narrow32 (weekOfMonth - 1)) + days - 1)))))"

subsection \<open>Date strings\<close>

text \<open>
  The loop that reads the year: it stops at the first character that is not a digit, or,
  without advancing, at the digit that takes the year above \<^verbatim>\<open>kMaxYear\<close>.
\<close>

function parseYearDigits :: "Env \<Rightarrow> string \<Rightarrow> nat \<Rightarrow> int \<Rightarrow> Thrown + (nat \<times> int)" where
  "parseYearDigits E buf pos year =
     (if pos < length buf \<and> characterIsDigit (buf ! pos) then
        (case checkedMultiply year 10 of
           Inl t \<Rightarrow> Inl t
         | Inr product \<Rightarrow>
             (case checkedPlus (digitValue (buf ! pos)) product of
                Inl t \<Rightarrow> Inl t
              | Inr year' \<Rightarrow>
                  if year' > kMaxYear E then Inr (pos, year')
                  else parseYearDigits E buf (pos + 1) year'))
      else Inr (pos, year))"
  by pat_completeness auto
termination
  by (relation "measure (\<lambda>(E, buf, pos, year). length buf - pos)") auto

declare parseYearDigits.simps [simp del]

text \<open>
  A step of \<^verbatim>\<open>tryParseDateString\<close>: an exception, a return (the position, and the day
  count where the source returns true), or the local variables with which the function
  goes on.
\<close>

datatype 'a Step = Throws Thrown | Returns nat "int option" | Goes 'a

text \<open>The variables \<^verbatim>\<open>pos\<close>, \<^verbatim>\<open>year\<close>, \<^verbatim>\<open>yearneg\<close>, \<^verbatim>\<open>month\<close> and \<^verbatim>\<open>day\<close>.\<close>

type_synonym DateFields = "nat \<times> int \<times> bool \<times> int \<times> int"

text \<open>The first part of \<^verbatim>\<open>tryParseDateString\<close>, up to the day (lines 213 to 335).\<close>

definition tryParseDateString_fields :: "Env \<Rightarrow> string \<Rightarrow> ParseMode \<Rightarrow> DateFields Step" where
  "tryParseDateString_fields E buf mode =
     (let len = length buf; pos = 0 in
      if len = 0 then Returns pos None
      else
      let pos = (if mode \<noteq> kIso8601 then skipSpaces buf pos else pos) in
      if pos \<ge> len then Returns pos None
      else
      (case (if buf ! pos = CHR ''-'' then (True, True, pos + 1)
             else if buf ! pos = CHR ''+'' then (True, False, pos + 1)
             else (False, False, pos)) of
        (sign, yearneg, pos) \<Rightarrow>
      if sign \<and> pos \<ge> len then Returns pos None
      else if \<not> characterIsDigit (buf ! pos) then Returns pos None
      else
      (case parseYearDigits E buf pos 0 of
        Inl t \<Rightarrow> Throws t
      | Inr (pos, year) \<Rightarrow>
      if mode = kSparkCast \<and> pos - (if sign then 1 else 0) < 4 then Returns pos None
      else
      (case (if yearneg then checkedNegate year else Inr year) of
        Inl t \<Rightarrow> Throws t
      | Inr year \<Rightarrow>
      if yearneg \<and> year < kMinYear E then Returns pos None
      else if (mode = kSparkCast \<or> mode = kIso8601) \<and> (pos = len \<or> buf ! pos = CHR ''T'') then
        (case daysSinceEpochFromDate E year 1 1 of
           Inl e \<Rightarrow> Returns pos None
         | Inr daysSinceEpoch \<Rightarrow>
             Returns pos (if validDate daysSinceEpoch then Some daysSinceEpoch else None))
      else if pos \<ge> len then Returns pos None
      else
      let sep = buf ! pos; pos = pos + 1 in
      if (if mode = kPrestoCast \<or> mode = kSparkCast \<or> mode = kIso8601 then sep \<noteq> CHR ''-''
          else sep \<noteq> CHR '' '' \<and> sep \<noteq> CHR ''-'' \<and> sep \<noteq> CHR ''/'' \<and> sep \<noteq> CHR 0x5C)
      then Returns pos None
      else
      (case parseDoubleDigit buf pos of
        None \<Rightarrow> Returns pos None
      | Some (pos, month) \<Rightarrow>
      if (mode = kSparkCast \<or> mode = kIso8601) \<and> (pos = len \<or> buf ! pos = CHR ''T'') then
        (case daysSinceEpochFromDate E year month 1 of
           Inl e \<Rightarrow> Returns pos None
         | Inr daysSinceEpoch \<Rightarrow>
             Returns pos (if validDate daysSinceEpoch then Some daysSinceEpoch else None))
      else if pos \<ge> len then Returns pos None
      else if buf ! pos \<noteq> sep then Returns (pos + 1) None
      else
      let pos = pos + 1 in
      if pos \<ge> len then Returns pos None
      else
      (case parseDoubleDigit buf pos of
        None \<Rightarrow> Returns pos None
      | Some (pos, day) \<Rightarrow> Goes (pos, year, yearneg, month, day)))))))"

text \<open>The trailing marker \<^verbatim>\<open>" (BC)"\<close> at \<open>pos\<close> (the condition of line 378).\<close>

definition trailingBC :: "string \<Rightarrow> nat \<Rightarrow> bool" where
  "trailingBC buf pos =
     (length buf - pos \<ge> 5 \<and> characterIsSpace (buf ! pos) \<and> buf ! (pos + 1) = CHR ''('' \<and>
      buf ! (pos + 2) = CHR ''B'' \<and> buf ! (pos + 3) = CHR ''C'' \<and> buf ! (pos + 4) = CHR '')'')"

text \<open>The second part of \<^verbatim>\<open>tryParseDateString\<close>, after the day (lines 337 to 411).\<close>

definition tryParseDateString_trailing ::
  "Env \<Rightarrow> string \<Rightarrow> ParseMode \<Rightarrow> DateFields \<Rightarrow> nat \<times> int option" where
  "tryParseDateString_trailing E buf mode st =
     (case st of (pos, year, yearneg, month, day) \<Rightarrow>
      let len = length buf in
      if mode = kPrestoCast \<or> mode = kIso8601 then
        (case daysSinceEpochFromDate E year month day of
           Inl e \<Rightarrow> (pos, None)
         | Inr daysSinceEpoch \<Rightarrow>
             (let pos = (if mode = kPrestoCast then skipSpaces buf pos else pos) in
              if pos = len
              then (pos, if validDate daysSinceEpoch then Some daysSinceEpoch else None)
              else (pos, None)))
      else if mode = kSparkCast then
        (case daysSinceEpochFromDate E year month day of
           Inl e \<Rightarrow> (pos, None)
         | Inr daysSinceEpoch \<Rightarrow>
             if \<not> validDate daysSinceEpoch then (pos, None)
             else if pos = len then (pos, Some daysSinceEpoch)
             else if buf ! pos = CHR ''T'' \<or> buf ! pos = CHR '' '' then (pos, Some daysSinceEpoch)
             else (pos, None))
      else
      let bc = trailingBC buf pos in
      if bc \<and> (yearneg \<or> year = 0) then (pos, None)
      else
      let year = (if bc then - year + 1 else year);
          pos = (if bc then pos + 5 else pos) in
      if bc \<and> year < kMinYear E then (pos, None)
      else
      let pos = (if mode = kStrict \<or> mode = kIso8601 then skipSpaces buf pos else pos) in
      if (if mode = kStrict \<or> mode = kIso8601 then pos < len
          else pos < len \<and> characterIsDigit (buf ! pos))
      then (pos, None)
      else
        (case daysSinceEpochFromDate E year month day of
           Inl e \<Rightarrow> (pos, None)
         | Inr daysSinceEpoch \<Rightarrow> (pos, Some daysSinceEpoch)))"

text \<open>
  \<^verbatim>\<open>tryParseDateString\<close>: the position reached and, where the source returns true, the
  day count it stored.
\<close>

definition tryParseDateString :: "Env \<Rightarrow> string \<Rightarrow> ParseMode \<Rightarrow> Thrown + (nat \<times> int option)" where
  "tryParseDateString E buf mode =
     (case tryParseDateString_fields E buf mode of
        Throws t \<Rightarrow> Inl t
      | Returns pos r \<Rightarrow> Inr (pos, r)
      | Goes st \<Rightarrow> Inr (tryParseDateString_trailing E buf mode st))"

text \<open>
  \<^verbatim>\<open>fromDateString\<close>. The day count is returned as \<^verbatim>\<open>Expected<int32_t>\<close>: the 64-bit
  count is narrowed.
\<close>

definition fromDateString :: "Env \<Rightarrow> string \<Rightarrow> ParseMode \<Rightarrow> Thrown + (Status + int)" where
  "fromDateString E str mode =
     (case tryParseDateString E str mode of
        Inl t \<Rightarrow> Inl t
      | Inr (pos, None) \<Rightarrow>
          if threadSkipErrorDetails E then Inr (Inl (UserError NoDetails))
          else
            (case mode of
               kPrestoCast \<Rightarrow> Inr (Inl (UserError (UnableToParseDate kPrestoCast)))
             | kSparkCast \<Rightarrow> Inr (Inl (UserError (UnableToParseDate kSparkCast)))
             | kIso8601 \<Rightarrow> Inr (Inl (UserError (UnableToParseDate kIso8601)))
             | _ \<Rightarrow> Inl Unreachable)
      | Inr (pos, Some daysSinceEpoch) \<Rightarrow> Inr (Inr (narrow32 daysSinceEpoch)))"


subsection \<open>Time strings\<close>

definition fromTime :: "int \<Rightarrow> int \<Rightarrow> int \<Rightarrow> int \<Rightarrow> int" where
  "fromTime hour minute second microseconds =
     (let result = hour;
          result = result * kMinsPerHour + minute;
          result = result * kSecsPerMinute + second;
          result = result * kMicrosPerSec + microseconds
      in result)"

definition fromDatetime :: "int \<Rightarrow> int \<Rightarrow> Timestamp" where
  "fromDatetime daysSinceEpoch microsSinceMidnight =
     (let secondsSinceEpoch = daysSinceEpoch * kSecsPerDay;
          secondsSinceEpoch = secondsSinceEpoch + microsSinceMidnight sdiv kMicrosPerSec
      in \<lparr>getSeconds = secondsSinceEpoch,
          getNanos = (microsSinceMidnight smod kMicrosPerSec) * kNanosPerMicro\<rparr>)"

definition parseTimeSeparator :: "string \<Rightarrow> nat \<Rightarrow> TimestampParseMode \<Rightarrow> nat" where
  "parseTimeSeparator buf pos parseMode =
     (case parseMode of
        kTsIso8601 \<Rightarrow> if buf ! pos = CHR ''T'' then pos + 1 else pos
      | kTsPrestoCast \<Rightarrow> if buf ! pos = CHR '' '' then pos + 1 else pos
      | kTsLegacyCast \<Rightarrow> if buf ! pos = CHR '' '' \<or> buf ! pos = CHR ''T'' then pos + 1 else pos
      | kTsSparkCast \<Rightarrow> if buf ! pos = CHR '' '' \<or> buf ! pos = CHR ''T'' then pos + 1 else pos)"

text \<open>The loop that reads the digits of the fraction of a second, in microseconds.\<close>

function parseMicros :: "string \<Rightarrow> nat \<Rightarrow> int \<Rightarrow> int \<Rightarrow> nat \<times> int" where
  "parseMicros buf pos mult micros =
     (if pos < length buf \<and> characterIsDigit (buf ! pos) then
        parseMicros buf (pos + 1) (mult sdiv 10)
          (if mult > 0 then micros + digitValue (buf ! pos) * mult else micros)
      else (pos, micros))"
  by pat_completeness auto
termination
  by (relation "measure (\<lambda>(buf, pos, mult, micros). length buf - pos)") auto

declare parseMicros.simps [simp del]

text \<open>
  \<^verbatim>\<open>tryParseTimeString\<close>: the position reached and, where the source returns true, the
  microseconds since midnight.
\<close>

definition tryParseTimeString :: "string \<Rightarrow> TimestampParseMode \<Rightarrow> nat \<times> int option" where
  "tryParseTimeString buf parseMode =
     (let len = length buf; sep = CHR '':''; pos = 0 in
      if len = 0 then (pos, None)
      else
      let pos = (if parseMode \<noteq> kTsIso8601 then skipSpaces buf pos else pos) in
      if pos \<ge> len then (pos, None)
      else if \<not> characterIsDigit (buf ! pos) then (pos, None)
      else
      (case parseDoubleDigit buf pos of
        None \<Rightarrow> (pos, None)
      | Some (pos, hour) \<Rightarrow>
      if hour < 0 \<or> hour \<ge> 24 then (pos, None)
      else if pos \<ge> len \<or> buf ! pos \<noteq> sep then
        (if parseMode = kTsIso8601 then (pos, Some (fromTime hour 0 0 0)) else (pos, None))
      else
      let pos = pos + 1 in
      (case parseDoubleDigit buf pos of
        None \<Rightarrow> (pos, None)
      | Some (pos, minute) \<Rightarrow>
      if minute < 0 \<or> minute \<ge> 60 then (pos, None)
      else if pos < len \<and> buf ! pos = sep then
        (let pos = pos + 1 in
         (case parseDoubleDigit buf pos of
           None \<Rightarrow> (pos, None)
         | Some (pos, sec) \<Rightarrow>
         if sec < 0 \<or> sec > 60 then (pos, None)
         else if pos < len then
           (let pos = (if buf ! pos = CHR ''.'' then pos + 1
                       else if parseMode = kTsIso8601 \<and> buf ! pos = CHR '','' then pos + 1
                       else pos) in
            if pos \<ge> len then (pos, None)
            else
            (case parseMicros buf pos 100000 0 of
               (pos, micros) \<Rightarrow> (pos, Some (fromTime hour minute sec micros))))
         else (pos, Some (fromTime hour minute sec 0))))
      else (pos, Some (fromTime hour minute 0 0)))))"

text \<open>The loop that reads at most three digits of milliseconds.\<close>

function parseMillis :: "string \<Rightarrow> nat \<Rightarrow> int \<Rightarrow> int \<Rightarrow> nat \<times> int" where
  "parseMillis buf pos mult millis =
     (if pos < length buf \<and> mult > 0 \<and> characterIsDigit (buf ! pos) then
        parseMillis buf (pos + 1) (mult sdiv 10) (millis + digitValue (buf ! pos) * mult)
      else (pos, millis))"
  by pat_completeness auto
termination
  by (relation "measure (\<lambda>(buf, pos, mult, millis). length buf - pos)") auto

declare parseMillis.simps [simp del]

text \<open>
  \<^verbatim>\<open>tryParsePrestoTimeOffsetString\<close>: the position reached and, where the source returns
  true, the signed offset in milliseconds.
\<close>

definition tryParsePrestoTimeOffsetString :: "string \<Rightarrow> nat \<times> int option" where
  "tryParsePrestoTimeOffsetString buf =
     (let len = length buf; sep = CHR '':''; pos = 0; result = 0 in
      if len = 0 then (pos, None)
      else if buf ! pos \<noteq> CHR ''+'' \<and> buf ! pos \<noteq> CHR ''-'' then (pos, None)
      else
      let positive = (buf ! pos = CHR ''+''); pos = pos + 1 in
      if pos \<ge> len then (pos, None)
      else
      (case parseDoubleDigit buf pos of
        None \<Rightarrow> (pos, None)
      | Some (pos, hour) \<Rightarrow>
      if hour < 0 \<or> hour \<ge> 24 then (pos, None)
      else
      let result = result + hour * kMillisPerHour in
      if pos \<ge> len \<or> (buf ! pos \<noteq> sep \<and> \<not> characterIsDigit (buf ! pos)) then
        (let result = result * (if positive then 1 else - 1) in
         (pos, if pos = len then Some result else None))
      else
      let pos = (if buf ! pos = sep then pos + 1 else pos) in
      (case parseDoubleDigit buf pos of
        None \<Rightarrow> (pos, None)
      | Some (pos, minute) \<Rightarrow>
      if minute < 0 \<or> minute \<ge> 60 then (pos, None)
      else
      let result = result + minute * kMillisPerMinute in
      if pos \<ge> len \<or> (buf ! pos \<noteq> sep \<and> \<not> characterIsDigit (buf ! pos)) then
        (let result = result * (if positive then 1 else - 1) in
         (pos, if pos = len then Some result else None))
      else
      let pos = (if buf ! pos = sep then pos + 1 else pos) in
      (case parseDoubleDigit buf pos of
        None \<Rightarrow> (pos, None)
      | Some (pos, sec) \<Rightarrow>
      if sec < 0 \<or> sec \<ge> 60 then (pos, None)
      else
      let result = result + sec * kMillisPerSecond in
      if pos \<ge> len \<or>
         (buf ! pos \<noteq> CHR ''.'' \<and> buf ! pos \<noteq> CHR '','' \<and> \<not> characterIsDigit (buf ! pos)) then
        (let result = result * (if positive then 1 else - 1) in
         (pos, if pos = len then Some result else None))
      else
      let pos = (if buf ! pos = CHR ''.'' \<or> buf ! pos = CHR '','' then pos + 1 else pos) in
      if pos \<ge> len then (pos, None)
      else
      (case parseMillis buf pos 100 0 of
         (pos, millis) \<Rightarrow>
           (let result = result + millis;
                result = result * (if positive then 1 else - 1)
            in (pos, if pos = len then Some result else None)))))))"

subsection \<open>Timestamp strings\<close>

text \<open>The dialect that \<^verbatim>\<open>tryParseTimestampString\<close> passes to the date parser.\<close>

definition dateModeOf :: "TimestampParseMode \<Rightarrow> ParseMode" where
  "dateModeOf parseMode =
     (if parseMode = kTsIso8601 \<or> parseMode = kTsSparkCast then kSparkCast else kNonStrict)"

text \<open>
  \<^verbatim>\<open>tryParseTimestampString\<close>, from the position \<open>pos\<close> that the caller passes in: the
  position reached and, where the source returns true, the timestamp.
\<close>

definition tryParseTimestampString ::
  "Env \<Rightarrow> string \<Rightarrow> nat \<Rightarrow> TimestampParseMode \<Rightarrow> Thrown + (nat \<times> Timestamp option)" where
  "tryParseTimestampString E buf pos parseMode =
     (let len = length buf in
      if parseMode = kTsIso8601 \<and> skipSpaces buf pos > pos then Inr (skipSpaces buf pos, None)
      else
      (case (if parseMode = kTsIso8601 \<and> pos < len \<and> buf ! pos = CHR ''T'' then
               (if pos = len - 1 then Inr (pos, None) else Inr (pos, Some 0))
             else tryParseDateString E buf (dateModeOf parseMode)) of
         Inl t \<Rightarrow> Inl t
       | Inr (pos, None) \<Rightarrow> Inr (pos, None)
       | Inr (pos, Some daysSinceEpoch) \<Rightarrow>
           if pos = len then Inr (pos, Some (fromDatetime daysSinceEpoch 0))
           else
           let pos = parseTimeSeparator buf pos parseMode in
           (case tryParseTimeString (drop pos buf) parseMode of
              (timePos, None) \<Rightarrow> Inr (pos, Some (fromDatetime daysSinceEpoch 0))
            | (timePos, Some microsSinceMidnight) \<Rightarrow>
                Inr (pos + timePos, Some (fromDatetime daysSinceEpoch microsSinceMidnight)))))"

definition parserError :: "Env \<Rightarrow> Status" where
  "parserError E =
     (if threadSkipErrorDetails E then UserError NoDetails else UserError UnableToParseTimestamp)"

definition fromTimestampString ::
  "Env \<Rightarrow> string \<Rightarrow> TimestampParseMode \<Rightarrow> Thrown + (Status + Timestamp)" where
  "fromTimestampString E str parseMode =
     (case tryParseTimestampString E str 0 parseMode of
        Inl t \<Rightarrow> Inl t
      | Inr (pos, None) \<Rightarrow> Inr (Inl (parserError E))
      | Inr (pos, Some resultTimestamp) \<Rightarrow>
          (let pos = skipSpaces str pos in
           if pos < length str then Inr (Inl (parserError E)) else Inr (Inr resultTimestamp)))"

record 'tz ParsedTimestampWithTimeZone =
  timestamp :: Timestamp
  timeZone :: "'tz option"
  offsetMillis :: "int option"

text \<open>The end of the token that starts at \<open>timezonePos\<close> (the loop of line 998).\<close>

function skipToSpace :: "string \<Rightarrow> nat \<Rightarrow> nat" where
  "skipToSpace str timezonePos =
     (if timezonePos < length str \<and> \<not> characterIsSpace (str ! timezonePos)
      then skipToSpace str (timezonePos + 1) else timezonePos)"
  by pat_completeness auto
termination
  by (relation "measure (\<lambda>(str, pos). length str - pos)") auto

declare skipToSpace.simps [simp del]

text \<open>
  \<^verbatim>\<open>fromTimestampWithTimezoneString\<close>. The lookup \<^verbatim>\<open>tz::locateZone\<close> of the time zone
  database is declared in \<^verbatim>\<open>tz/TimeZoneMap.h\<close> and is a parameter: it maps a name to a
  zone, or to \<open>None\<close> for the null pointer.
\<close>

definition fromTimestampWithTimezoneString ::
  "Env \<Rightarrow> (string \<Rightarrow> 'tz option) \<Rightarrow> string \<Rightarrow> TimestampParseMode \<Rightarrow>
     Thrown + (Status + 'tz ParsedTimestampWithTimeZone)" where
  "fromTimestampWithTimezoneString E locateZone str parseMode =
     (let len = length str in
      case tryParseTimestampString E str 0 parseMode of
        Inl t \<Rightarrow> Inl t
      | Inr (pos, None) \<Rightarrow> Inr (Inl (parserError E))
      | Inr (pos, Some resultTimestamp) \<Rightarrow>
          (let pos = (if pos < len \<and> parseMode \<noteq> kTsIso8601 \<and> characterIsSpace (str ! pos)
                      then pos + 1 else pos) in
           if pos < len then
             (if parseMode = kTsIso8601 \<and> str ! pos \<noteq> CHR ''Z'' \<and> str ! pos \<noteq> CHR ''+'' \<and>
                 str ! pos \<noteq> CHR ''-''
              then Inr (Inl (parserError E))
              else
              let timezonePos = skipToSpace str pos;
                  timeZoneName = take (timezonePos - pos) (drop pos str);
                  endPos = (if parseMode \<noteq> kTsIso8601 then skipSpaces str timezonePos
                            else timezonePos)
              in
              (case locateZone timeZoneName of
                 Some zone \<Rightarrow>
                   if endPos < len then Inr (Inl (parserError E))
                   else Inr (Inr \<lparr>timestamp = resultTimestamp, timeZone = Some zone,
                                  offsetMillis = None\<rparr>)
               | None \<Rightarrow>
                   (case (if parseMode = kTsPrestoCast
                          then snd (tryParsePrestoTimeOffsetString timeZoneName) else None) of
                      Some offset \<Rightarrow>
                        if endPos < len then Inr (Inl (parserError E))
                        else Inr (Inr \<lparr>timestamp = resultTimestamp, timeZone = None,
                                       offsetMillis = Some offset\<rparr>)
                    | None \<Rightarrow> Inr (Inl (UserError (UnknownTimezoneValue timeZoneName))))))
           else Inr (Inr \<lparr>timestamp = resultTimestamp, timeZone = None, offsetMillis = None\<rparr>)))"

subsection \<open>Timestamps to dates\<close>

text \<open>The lambda \<^verbatim>\<open>convertToDate\<close> of \<^verbatim>\<open>toDate\<close>; its result is an \<^verbatim>\<open>int32_t\<close>.\<close>

definition convertToDate :: "Timestamp \<Rightarrow> int" where
  "convertToDate t =
     (let kSecsPerDay = 86400; seconds = getSeconds t in
      if seconds \<ge> 0 \<or> seconds smod kSecsPerDay = 0 then narrow32 (seconds sdiv kSecsPerDay)
      else narrow32 (seconds sdiv kSecsPerDay - 1))"

text \<open>
  \<^verbatim>\<open>toDate\<close>. \<^verbatim>\<open>Timestamp::toTimezone\<close> is declared in \<^verbatim>\<open>Timestamp.h\<close> and is a
  parameter: it shifts a timestamp into the local time of a zone.
\<close>

definition toDate :: "('tz \<Rightarrow> Timestamp \<Rightarrow> Timestamp) \<Rightarrow> Timestamp \<Rightarrow> 'tz option \<Rightarrow> int" where
  "toDate toTimezone timestamp' timeZone' =
     (case timeZone' of
        Some zone \<Rightarrow> convertToDate (toTimezone zone timestamp')
      | None \<Rightarrow> convertToDate timestamp')"


text \<open>A zone at a fixed offset in seconds from UTC, to evaluate \<open>toDate\<close>.\<close>

definition shiftSeconds :: "int \<Rightarrow> Timestamp \<Rightarrow> Timestamp" where
  "shiftSeconds offset t = t\<lparr>getSeconds := getSeconds t + offset\<rparr>"

text \<open>
  The computation that the specification gives for the week-of-month date, on a month
  already in 1..12: the day count of the first day of the month, back to the start of its
  week by the weekday of that first day, and then on by \<open>(weekOfMonth - 1) * 7\<close> and the
  adjusted day of the week. The adjustment is the one of the source (lines 826 to 832),
  on unbounded integers.
\<close>

definition adjustedDayOfWeek :: "int \<Rightarrow> int" where
  "adjustedDayOfWeek dayOfWeek =
     (if dayOfWeek < 1 then 7 - \<bar>dayOfWeek - 1\<bar> smod 7
      else if dayOfWeek > 7 then (dayOfWeek - 1) smod 7
      else dayOfWeek smod 7)"

definition fromFirstDayOfMonth :: "Env \<Rightarrow> int \<Rightarrow> int \<Rightarrow> int \<Rightarrow> int \<Rightarrow> Status + int" where
  "fromFirstDayOfMonth E year month weekOfMonth dayOfWeek =
     (case daysSinceEpochFromDate E year month 1 of
        Inl e \<Rightarrow> Inl e
      | Inr firstDayOfMonth \<Rightarrow>
          Inr (firstDayOfMonth - (extractISODayOfTheWeek firstDayOfMonth - 1)
               + ((weekOfMonth - 1) * 7 + adjustedDayOfWeek dayOfWeek) - 1))"

text \<open>
  The arguments of \<open>daysSinceEpochFromWeekOfMonthDate\<close>, 32-bit values, for which none
  of its 32-bit operations overflows: \<^verbatim>\<open>abs(month)\<close>, \<^verbatim>\<open>year += additionYears\<close>,
  \<^verbatim>\<open>weekOfMonth - 1\<close>, \<^verbatim>\<open>7 * (weekOfMonth - 1)\<close>, \<^verbatim>\<open>dayOfWeek - 1\<close> and
  \<^verbatim>\<open>abs(dayOfWeek - 1)\<close>.
\<close>

definition noSignedOverflow :: "int \<Rightarrow> int \<Rightarrow> int \<Rightarrow> int \<Rightarrow> bool" where
  "noSignedOverflow year month weekOfMonth dayOfWeek =
     (isInt32 year \<and> isInt32 month \<and> isInt32 weekOfMonth \<and> isInt32 dayOfWeek \<and>
      month \<noteq> int32Min \<and>
      isInt32 (year + (month - 1) div 12) \<and>
      isInt32 (weekOfMonth - 1) \<and> isInt32 (7 * (weekOfMonth - 1)) \<and>
      isInt32 (dayOfWeek - 1) \<and> dayOfWeek - 1 \<noteq> int32Min)"

text \<open>The character of a decimal digit, to state properties of the grammars.\<close>

definition digitChar :: "nat \<Rightarrow> char" where
  "digitChar k = char_of (48 + k)"

text \<open>A zone database that knows the one name \<open>UTC\<close>, to evaluate the zone-aware parser.\<close>

definition onlyUTC :: "string \<Rightarrow> unit option" where
  "onlyUTC timeZoneName = (if timeZoneName = ''UTC'' then Some () else None)"

section \<open>Properties\<close>

subsection \<open>Truncating and flooring division\<close>

lemma sdiv_pos_divisor:
  "0 < b \<Longrightarrow> a sdiv b = (if 0 \<le> a \<or> a mod b = 0 then a div b else a div b + 1)"
  for a b :: int
  by (auto simp: signed_divide_int_eq_divide_int sgn_if dvd_eq_mod_eq_0)

lemma smod_pos_divisor:
  "0 < b \<Longrightarrow> a smod b = (if 0 \<le> a \<or> a mod b = 0 then a mod b else a mod b - b)"
  for a b :: int
  by (auto simp: signed_modulo_int_eq_modulo_int sgn_if dvd_eq_mod_eq_0)

lemma narrow32_id: "isInt32 x \<Longrightarrow> narrow32 x = x"
  by (simp add: narrow32_def isInt32_def int32Min_def int32Max_def)

subsection \<open>Day of the week\<close>

lemma extractISODayOfTheWeek_floor: "extractISODayOfTheWeek d = (d + 3) mod 7 + 1"
proof (cases "d < 0")
  case True
  then have "(- d + 3) smod 7 = (3 - d) mod 7" by (simp add: smod_pos_divisor)
  moreover have "7 - (3 - d) mod 7 = (d + 3) mod 7 + 1" by presburger
  ultimately show ?thesis using True by (simp add: extractISODayOfTheWeek_def)
next
  case False
  then show ?thesis by (simp add: extractISODayOfTheWeek_def smod_pos_divisor)
qed

lemma week_start_is_monday: "(j - (j + 3) mod 7 + 3) mod 7 = (0::int)"
proof -
  have "j - (j + 3) mod 7 + 3 = (j + 3) - (j + 3) mod 7" by simp
  also have "\<dots> mod 7 = 0" by (simp add: minus_mod_eq_mult_div)
  finally show ?thesis .
qed

lemma week_day_offset:
  assumes d: "1 \<le> d" "d \<le> 7" and W: "(W + 3) mod 7 = 0"
  shows "(W + 7 * (w - 1) + (d - 1) + 3) mod 7 + 1 = (d::int)"
proof -
  have "W + 7 * (w - 1) + (d - 1) + 3 = (d - 1) + (W + 3) + 7 * (w - 1)" by simp
  also have "\<dots> mod 7 = ((d - 1) + (W + 3)) mod 7" by (rule mod_mult_self2)
  also have "\<dots> = ((d - 1) mod 7 + (W + 3) mod 7) mod 7" by (simp add: mod_add_eq)
  also have "\<dots> = d - 1" using d W by simp
  finally show ?thesis by simp
qed

lemma plus_seven_mod: "(d + 7 + 3) mod 7 = (d + 3) mod (7::int)"
proof -
  have "d + 7 + 3 = (d + 3) + 7 * 1" by simp
  also have "\<dots> mod 7 = (d + 3) mod 7" by (rule mod_mult_self2)
  finally show ?thesis .
qed

text \<open>
  Claim C6. For every day count \<open>d\<close>, negative ones included (and so for every 64-bit
  one: the source widens to 128 bits before it adds), \<open>extractISODayOfTheWeek d\<close> lies in
  1..7, day 0 is a Thursday (4), and \<open>d\<close> and \<open>d + 7\<close> fall on the same day of the week:
  the function is the flooring modulo \<open>(d + 3) mod 7 + 1\<close>, not the truncating one.
\<close>

theorem extractISODayOfTheWeek_cycle:
  "1 \<le> extractISODayOfTheWeek d \<and> extractISODayOfTheWeek d \<le> 7 \<and>
   extractISODayOfTheWeek 0 = 4 \<and>
   extractISODayOfTheWeek (d + 7) = extractISODayOfTheWeek d \<and>
   extractISODayOfTheWeek d = (d + 3) mod 7 + 1"
proof -
  have lo: "0 \<le> (d + 3) mod 7" by simp
  have "(d + 3) mod 7 < 7" by simp
  then have hi: "(d + 3) mod 7 \<le> 6" by linarith
  have 1: "1 \<le> extractISODayOfTheWeek d"
    using lo unfolding extractISODayOfTheWeek_floor by linarith
  have 2: "extractISODayOfTheWeek d \<le> 7"
    using hi unfolding extractISODayOfTheWeek_floor by linarith
  have 3: "extractISODayOfTheWeek 0 = 4" by (simp add: extractISODayOfTheWeek_floor)
  have 4: "extractISODayOfTheWeek (d + 7) = extractISODayOfTheWeek d"
    unfolding extractISODayOfTheWeek_floor plus_seven_mod ..
  show ?thesis using 1 2 3 4 extractISODayOfTheWeek_floor by blast
qed

subsection \<open>Dates from calendar fields\<close>

lemma isValidDate_jan4: "kMinYear E \<le> y \<Longrightarrow> y \<le> kMaxYear E \<Longrightarrow> isValidDate E y 1 4"
  by (simp add: isValidDate_def kLeapDays_def kNormalDays_def)

lemma daysSinceEpochFromDate_valid:
  "isValidDate E y m d \<Longrightarrow> \<exists>n. daysSinceEpochFromDate E y m d = Inr n"
  by (simp add: daysSinceEpochFromDate_def split: prod.split)

text \<open>
  Claim C5. \<open>daysSinceEpochFromWeekDate\<close> returns an error exactly when the day of the
  week is outside 1..7, or the week is outside 1..52 (week 53 is always rejected), or the
  week year is outside \<open>kMinYear..kMaxYear\<close>. On success the result counts from the Monday
  of week 1, which is the Monday of the week that contains January 4th, and falls on the
  requested day of the week.
\<close>

theorem daysSinceEpochFromWeekDate_error_iff:
  "((\<exists>e. daysSinceEpochFromWeekDate E weekYear weekOfYear dayOfWeek = Inl e) \<longleftrightarrow>
      (dayOfWeek < 1 \<or> dayOfWeek > 7 \<or> weekOfYear < 1 \<or> weekOfYear > 52 \<or>
       weekYear < kMinYear E \<or> weekYear > kMaxYear E)) \<and>
   (\<forall>r. daysSinceEpochFromWeekDate E weekYear weekOfYear dayOfWeek = Inr r \<longrightarrow>
      (\<exists>janFourth monday. daysSinceEpochFromDate E weekYear 1 4 = Inr janFourth \<and>
         extractISODayOfTheWeek monday = 1 \<and> monday \<le> janFourth \<and> janFourth \<le> monday + 6 \<and>
         r = monday + 7 * (weekOfYear - 1) + (dayOfWeek - 1) \<and>
         extractISODayOfTheWeek r = dayOfWeek))"
proof (cases "isValidWeekDate E weekYear weekOfYear dayOfWeek")
  case False
  then have "\<exists>e. daysSinceEpochFromWeekDate E weekYear weekOfYear dayOfWeek = Inl e"
    by (simp add: daysSinceEpochFromWeekDate_def)
  moreover from False
  have "dayOfWeek < 1 \<or> dayOfWeek > 7 \<or> weekOfYear < 1 \<or> weekOfYear > 52 \<or>
       weekYear < kMinYear E \<or> weekYear > kMaxYear E"
    by (auto simp: isValidWeekDate_def split: if_splits)
  ultimately show ?thesis by auto
next
  case True
  then have rng: "1 \<le> dayOfWeek" "dayOfWeek \<le> 7" "1 \<le> weekOfYear" "weekOfYear \<le> 52"
    "kMinYear E \<le> weekYear" "weekYear \<le> kMaxYear E"
    by (simp_all add: isValidWeekDate_def split: if_splits)
  from daysSinceEpochFromDate_valid [OF isValidDate_jan4 [OF rng(5,6)]]
  obtain j where j: "daysSinceEpochFromDate E weekYear 1 4 = Inr j" by blast
  define monday where "monday = j - (j + 3) mod 7"
  have res: "daysSinceEpochFromWeekDate E weekYear weekOfYear dayOfWeek =
      Inr (monday + 7 * (weekOfYear - 1) + (dayOfWeek - 1))"
    using True j by (simp add: daysSinceEpochFromWeekDate_def Let_def monday_def
        extractISODayOfTheWeek_floor)
  have mon: "(monday + 3) mod 7 = 0"
    unfolding monday_def by (rule week_start_is_monday)
  have a: "extractISODayOfTheWeek monday = 1"
    by (simp add: extractISODayOfTheWeek_floor mon)
  have b: "extractISODayOfTheWeek (monday + 7 * (weekOfYear - 1) + (dayOfWeek - 1)) = dayOfWeek"
    unfolding extractISODayOfTheWeek_floor by (rule week_day_offset [OF rng(1,2) mon])
  have "0 \<le> (j + 3) mod 7" by simp
  then have c: "monday \<le> j" by (simp add: monday_def)
  have "(j + 3) mod 7 < 7" by simp
  then have d: "j \<le> monday + 6" unfolding monday_def by linarith
  have f: "\<not> (dayOfWeek < 1 \<or> dayOfWeek > 7 \<or> weekOfYear < 1 \<or> weekOfYear > 52 \<or>
       weekYear < kMinYear E \<or> weekYear > kMaxYear E)"
    using rng by simp
  have g: "\<not> (\<exists>e. daysSinceEpochFromWeekDate E weekYear weekOfYear dayOfWeek = Inl e)"
    unfolding res by simp
  have h: "\<exists>janFourth monday'. daysSinceEpochFromDate E weekYear 1 4 = Inr janFourth \<and>
         extractISODayOfTheWeek monday' = 1 \<and> monday' \<le> janFourth \<and>
         janFourth \<le> monday' + 6 \<and>
         monday + 7 * (weekOfYear - 1) + (dayOfWeek - 1) =
           monday' + 7 * (weekOfYear - 1) + (dayOfWeek - 1) \<and>
         extractISODayOfTheWeek (monday + 7 * (weekOfYear - 1) + (dayOfWeek - 1)) = dayOfWeek"
    using j a b c d by blast
  show ?thesis
    using f g h unfolding res by simp
qed

theorem daysSinceEpochFromWeekDate_error_iff_witness:
  "daysSinceEpochFromWeekDate sampleEnv 2020 1 1 = Inr 18260 \<and>
   daysSinceEpochFromDate sampleEnv 2020 1 4 = Inr 18265 \<and>
   extractISODayOfTheWeek 18260 = 1 \<and>
   (\<exists>e. daysSinceEpochFromWeekDate sampleEnv 2020 53 1 = Inl e)"
proof -
  have r: "daysSinceEpochFromWeekDate sampleEnv 2020 1 1 = Inr 18260" by code_simp
  have j: "daysSinceEpochFromDate sampleEnv 2020 1 4 = Inr 18265" by code_simp
  from daysSinceEpochFromWeekDate_error_iff [of sampleEnv 2020 1 1] r j
  have "extractISODayOfTheWeek 18260 = 1" by auto
  moreover from daysSinceEpochFromWeekDate_error_iff [of sampleEnv 2020 53 1]
  have "\<exists>e. daysSinceEpochFromWeekDate sampleEnv 2020 53 1 = Inl e" by simp
  ultimately show ?thesis using r j by simp
qed

subsection \<open>Timestamps to dates\<close>

lemma convertToDate_floor: "convertToDate t = narrow32 (getSeconds t div 86400)"
proof -
  have "getSeconds t mod 86400 < 86400" by simp
  then have "getSeconds t mod 86400 \<noteq> 86400" by linarith
  then show ?thesis
    unfolding convertToDate_def Let_def
    by (simp add: sdiv_pos_divisor smod_pos_divisor)
qed

text \<open>
  Claim C7, as amended. \<open>toDate\<close> is the flooring division of the seconds by 86400,
  after the shift into the zone when one is given, for every timestamp whose floored
  quotient fits the 32-bit result: seconds that are negative and not a whole number of
  days go to the earlier day. For every timestamp, also outside that range, the result
  is the floored quotient narrowed to 32 bits.
\<close>

theorem toDate_floor_in_range:
  "toDate toTimezone t z =
     narrow32 (getSeconds (case z of None \<Rightarrow> t | Some zone \<Rightarrow> toTimezone zone t) div 86400) \<and>
   isInt32 (toDate toTimezone t z) \<and>
   (isInt32 (getSeconds (case z of None \<Rightarrow> t | Some zone \<Rightarrow> toTimezone zone t) div 86400) \<longrightarrow>
      toDate toTimezone t z =
        getSeconds (case z of None \<Rightarrow> t | Some zone \<Rightarrow> toTimezone zone t) div 86400)"
proof -
  let ?q = "getSeconds (case z of None \<Rightarrow> t | Some zone \<Rightarrow> toTimezone zone t) div 86400"
  have a: "toDate toTimezone t z = narrow32 ?q"
    by (cases z) (simp_all add: toDate_def convertToDate_floor)
  have "0 \<le> (?q + 2147483648) mod 4294967296" by simp
  moreover have "(?q + 2147483648) mod 4294967296 < 4294967296" by simp
  ultimately have b: "isInt32 (narrow32 ?q)"
    unfolding narrow32_def isInt32_def int32Min_def int32Max_def by linarith
  show ?thesis using a b narrow32_id [of ?q] by simp
qed

theorem toDate_floor_in_range_witness:
  "isInt32 (getSeconds \<lparr>getSeconds = - 1, getNanos = 0\<rparr> div 86400) \<and>
   toDate shiftSeconds \<lparr>getSeconds = - 1, getNanos = 0\<rparr> None = - 1 \<and>
   isInt32 (getSeconds (shiftSeconds 3600 \<lparr>getSeconds = - 1, getNanos = 0\<rparr>) div 86400) \<and>
   toDate shiftSeconds \<lparr>getSeconds = - 1, getNanos = 0\<rparr> (Some 3600) = 0 \<and>
   toDate shiftSeconds \<lparr>getSeconds = - 185542587187201, getNanos = 0\<rparr> None =
     narrow32 (- 2147483649)"
  using
    toDate_floor_in_range [where z = "None :: int option" and toTimezone = shiftSeconds
      and t = "\<lparr>getSeconds = - 1, getNanos = 0\<rparr>"]
    toDate_floor_in_range [where z = "Some 3600" and toTimezone = shiftSeconds
      and t = "\<lparr>getSeconds = - 1, getNanos = 0\<rparr>"]
    toDate_floor_in_range [where z = "None :: int option" and toTimezone = shiftSeconds
      and t = "\<lparr>getSeconds = - 185542587187201, getNanos = 0\<rparr>"]
  by (simp add: shiftSeconds_def isInt32_def int32Min_def int32Max_def)

text \<open>
  The claim as stated fails where the floored quotient does not fit 32 bits: the
  timestamp of \<open>- 185542587187201\<close> seconds lies in day \<open>- 2147483649\<close>, and \<open>toDate\<close>
  returns \<open>2147483647\<close>.
\<close>

theorem toDate_floor_counterexample:
  "toDate shiftSeconds \<lparr>getSeconds = - 185542587187201, getNanos = 0\<rparr> None = 2147483647 \<and>
   (- 185542587187201) div 86400 = (- 2147483649 :: int)"
  by (simp add: toDate_def convertToDate_floor narrow32_def)


subsection \<open>Digits\<close>

lemma of_char_digitChar: "k < 10 \<Longrightarrow> of_char (digitChar k) = (48 + k :: nat)"
  by (simp add: digitChar_def)

lemma characterIsDigit_digitChar [simp]: "k < 10 \<Longrightarrow> characterIsDigit (digitChar k)"
  by (simp add: characterIsDigit_def of_char_digitChar)

lemma digitValue_digitChar [simp]: "k < 10 \<Longrightarrow> digitValue (digitChar k) = int k"
proof -
  assume k: "k < 10"
  have "(of_char (digitChar k) :: int) = int (of_char (digitChar k))"
    by (simp only: of_nat_of_char)
  then show ?thesis using k by (simp add: digitValue_def of_char_digitChar)
qed

lemma digitChar_neq: "k < 10 \<Longrightarrow> \<not> characterIsDigit c \<Longrightarrow> digitChar k \<noteq> c"
  using characterIsDigit_digitChar by blast

lemma not_digit [simp]:
  "\<not> characterIsDigit CHR '':''" "\<not> characterIsDigit CHR ''.''" "\<not> characterIsDigit CHR '',''"
  "\<not> characterIsDigit CHR ''+''" "\<not> characterIsDigit CHR ''-''"
  by (simp_all add: characterIsDigit_def)

lemmas digitChar_neq_simps [simp] =
  digitChar_neq [OF _ not_digit(1)] digitChar_neq [OF _ not_digit(2)]
  digitChar_neq [OF _ not_digit(3)] digitChar_neq [OF _ not_digit(4)]
  digitChar_neq [OF _ not_digit(5)]

lemma digitChar_literal:
  "digitChar 0 = CHR ''0''" "digitChar (Suc 0) = CHR ''1''" "digitChar 2 = CHR ''2''"
  "digitChar 3 = CHR ''3''" "digitChar 4 = CHR ''4''" "digitChar 5 = CHR ''5''"
  "digitChar 6 = CHR ''6''" "digitChar 7 = CHR ''7''" "digitChar 8 = CHR ''8''"
  "digitChar 9 = CHR ''9''"
  by code_simp+

subsection \<open>Offset strings\<close>

lemma offset_hour:
  assumes "h1 < 10" "h2 < 10" "10 * h1 + h2 < 24" "sg = CHR ''+'' \<or> sg = CHR ''-''"
  shows "tryParsePrestoTimeOffsetString [sg, digitChar h1, digitChar h2] =
      (3, Some ((if sg = CHR ''+'' then 1 else - 1) * (int (10 * h1 + h2) * 3600000)))"
  using assms
  by (simp add: tryParsePrestoTimeOffsetString_def parseDoubleDigit_def Let_def kMillisPerHour_def)


lemmas parseMillis_unroll =
  parseMillis.simps [where mult = 100] parseMillis.simps [where mult = 10]
  parseMillis.simps [where mult = 1] parseMillis.simps [where mult = 0]

lemmas offset_defs = tryParsePrestoTimeOffsetString_def parseDoubleDigit_def Let_def
  kMillisPerHour_def kMillisPerMinute_def kMillisPerSecond_def

lemma offset_hour_minute:
  assumes "h1 < 10" "h2 < 10" "10 * h1 + h2 < 24" "m1 < 10" "m2 < 10" "10 * m1 + m2 < 60"
    "sg = CHR ''+'' \<or> sg = CHR ''-''" "colon = [] \<or> colon = '':''"
  shows "tryParsePrestoTimeOffsetString ([sg, digitChar h1, digitChar h2] @ colon @ [digitChar m1, digitChar m2]) =
      (5 + length colon, Some ((if sg = CHR ''+'' then 1 else - 1) *
         (int (10 * h1 + h2) * 3600000 + int (10 * m1 + m2) * 60000)))"
proof -
  from assms(8) show ?thesis
  proof
    assume "colon = []"
    with assms show ?thesis by (simp add: offset_defs)
  next
    assume "colon = '':''"
    with assms show ?thesis by (simp add: offset_defs)
  qed
qed

lemma offset_hour_minute_second:
  assumes "h1 < 10" "h2 < 10" "10 * h1 + h2 < 24" "m1 < 10" "m2 < 10" "10 * m1 + m2 < 60"
    "s1 < 10" "s2 < 10" "10 * s1 + s2 < 60"
    "sg = CHR ''+'' \<or> sg = CHR ''-''" "colon = [] \<or> colon = '':''" "colon' = [] \<or> colon' = '':''"
  shows "tryParsePrestoTimeOffsetString ([sg, digitChar h1, digitChar h2] @ colon @ [digitChar m1, digitChar m2]
          @ colon' @ [digitChar s1, digitChar s2]) =
      (7 + length colon + length colon', Some ((if sg = CHR ''+'' then 1 else - 1) *
         (int (10 * h1 + h2) * 3600000 + int (10 * m1 + m2) * 60000 + int (10 * s1 + s2) * 1000)))"
proof -
  consider "colon = []" "colon' = []" | "colon = []" "colon' = '':''"
    | "colon = '':''" "colon' = []" | "colon = '':''" "colon' = '':''"
    using assms(11,12) by blast
  then show ?thesis
  proof cases
    case 1 with assms show ?thesis by (simp add: offset_defs)
  next
    case 2 with assms show ?thesis by (simp add: offset_defs)
  next
    case 3 with assms show ?thesis by (simp add: offset_defs)
  next
    case 4 with assms show ?thesis by (simp add: offset_defs)
  qed
qed


lemma offset_full:
  assumes "h1 < 10" "h2 < 10" "10 * h1 + h2 < 24" "m1 < 10" "m2 < 10" "10 * m1 + m2 < 60"
    "s1 < 10" "s2 < 10" "10 * s1 + s2 < 60" "f1 < 10" "f2 < 10" "f3 < 10"
    "sg = CHR ''+'' \<or> sg = CHR ''-''" "dot = [] \<or> dot = ''.'' \<or> dot = '',''"
  shows
   "tryParsePrestoTimeOffsetString ([sg, digitChar h1, digitChar h2, digitChar m1, digitChar m2,
          digitChar s1, digitChar s2] @ dot @ [digitChar f1, digitChar f2, digitChar f3]) =
      (10 + length dot, Some ((if sg = CHR ''+'' then 1 else - 1) *
         (int (10 * h1 + h2) * 3600000 + int (10 * m1 + m2) * 60000 + int (10 * s1 + s2) * 1000
          + int (100 * f1 + 10 * f2 + f3))))"
   "tryParsePrestoTimeOffsetString ([sg, digitChar h1, digitChar h2, CHR '':'', digitChar m1, digitChar m2,
          digitChar s1, digitChar s2] @ dot @ [digitChar f1, digitChar f2, digitChar f3]) =
      (11 + length dot, Some ((if sg = CHR ''+'' then 1 else - 1) *
         (int (10 * h1 + h2) * 3600000 + int (10 * m1 + m2) * 60000 + int (10 * s1 + s2) * 1000
          + int (100 * f1 + 10 * f2 + f3))))"
   "tryParsePrestoTimeOffsetString ([sg, digitChar h1, digitChar h2, digitChar m1, digitChar m2,
          CHR '':'', digitChar s1, digitChar s2] @ dot @ [digitChar f1, digitChar f2, digitChar f3]) =
      (11 + length dot, Some ((if sg = CHR ''+'' then 1 else - 1) *
         (int (10 * h1 + h2) * 3600000 + int (10 * m1 + m2) * 60000 + int (10 * s1 + s2) * 1000
          + int (100 * f1 + 10 * f2 + f3))))"
   "tryParsePrestoTimeOffsetString ([sg, digitChar h1, digitChar h2, CHR '':'', digitChar m1, digitChar m2,
          CHR '':'', digitChar s1, digitChar s2] @ dot @ [digitChar f1, digitChar f2, digitChar f3]) =
      (12 + length dot, Some ((if sg = CHR ''+'' then 1 else - 1) *
         (int (10 * h1 + h2) * 3600000 + int (10 * m1 + m2) * 60000 + int (10 * s1 + s2) * 1000
          + int (100 * f1 + 10 * f2 + f3))))"
proof -
  have sd: "(100::int) sdiv 10 = 10" "(10::int) sdiv 10 = 1" "(1::int) sdiv 10 = 0"
    by (simp_all add: sdiv_pos_divisor)
  note defs = offset_defs parseMillis_unroll sd
  from assms(14) consider "dot = []" | "dot = ''.''" | "dot = '',''" by blast
  then show
   "tryParsePrestoTimeOffsetString ([sg, digitChar h1, digitChar h2, digitChar m1, digitChar m2,
          digitChar s1, digitChar s2] @ dot @ [digitChar f1, digitChar f2, digitChar f3]) =
      (10 + length dot, Some ((if sg = CHR ''+'' then 1 else - 1) *
         (int (10 * h1 + h2) * 3600000 + int (10 * m1 + m2) * 60000 + int (10 * s1 + s2) * 1000
          + int (100 * f1 + 10 * f2 + f3))))"
  proof cases
    case 1 with assms show ?thesis by (simp add: defs)
  next
    case 2 with assms show ?thesis by (simp add: defs)
  next
    case 3 with assms show ?thesis by (simp add: defs)
  qed
  from assms(14) consider "dot = []" | "dot = ''.''" | "dot = '',''" by blast
  then show
   "tryParsePrestoTimeOffsetString ([sg, digitChar h1, digitChar h2, CHR '':'', digitChar m1, digitChar m2,
          digitChar s1, digitChar s2] @ dot @ [digitChar f1, digitChar f2, digitChar f3]) =
      (11 + length dot, Some ((if sg = CHR ''+'' then 1 else - 1) *
         (int (10 * h1 + h2) * 3600000 + int (10 * m1 + m2) * 60000 + int (10 * s1 + s2) * 1000
          + int (100 * f1 + 10 * f2 + f3))))"
  proof cases
    case 1 with assms show ?thesis by (simp add: defs)
  next
    case 2 with assms show ?thesis by (simp add: defs)
  next
    case 3 with assms show ?thesis by (simp add: defs)
  qed
  from assms(14) consider "dot = []" | "dot = ''.''" | "dot = '',''" by blast
  then show
   "tryParsePrestoTimeOffsetString ([sg, digitChar h1, digitChar h2, digitChar m1, digitChar m2,
          CHR '':'', digitChar s1, digitChar s2] @ dot @ [digitChar f1, digitChar f2, digitChar f3]) =
      (11 + length dot, Some ((if sg = CHR ''+'' then 1 else - 1) *
         (int (10 * h1 + h2) * 3600000 + int (10 * m1 + m2) * 60000 + int (10 * s1 + s2) * 1000
          + int (100 * f1 + 10 * f2 + f3))))"
  proof cases
    case 1 with assms show ?thesis by (simp add: defs)
  next
    case 2 with assms show ?thesis by (simp add: defs)
  next
    case 3 with assms show ?thesis by (simp add: defs)
  qed
  from assms(14) consider "dot = []" | "dot = ''.''" | "dot = '',''" by blast
  then show
   "tryParsePrestoTimeOffsetString ([sg, digitChar h1, digitChar h2, CHR '':'', digitChar m1, digitChar m2,
          CHR '':'', digitChar s1, digitChar s2] @ dot @ [digitChar f1, digitChar f2, digitChar f3]) =
      (12 + length dot, Some ((if sg = CHR ''+'' then 1 else - 1) *
         (int (10 * h1 + h2) * 3600000 + int (10 * m1 + m2) * 60000 + int (10 * s1 + s2) * 1000
          + int (100 * f1 + 10 * f2 + f3))))"
  proof cases
    case 1 with assms show ?thesis by (simp add: defs)
  next
    case 2 with assms show ?thesis by (simp add: defs)
  next
    case 3 with assms show ?thesis by (simp add: defs)
  qed
qed


lemma offset_consumes_all:
  "tryParsePrestoTimeOffsetString buf = (pos, Some r) \<Longrightarrow> pos = length buf"
  unfolding tryParsePrestoTimeOffsetString_def Let_def
  by (simp split: if_splits option.splits prod.splits)

text \<open>
  Claim C8. The signed offset parser succeeds only at the end of its input: whenever it
  returns an offset, the position is the length of the input, so an unconsumed character
  is a failure. After the sign and a two-digit hour below 24, the minute, the second and
  the milliseconds are optional, and so is each \<open>:\<close> and the decimal mark before the
  milliseconds: with or without them the text parses to the signed total of milliseconds.
  \<open>+05:30\<close> parses to 19800000 and \<open>-0530\<close> to - 19800000.
\<close>

theorem tryParsePrestoTimeOffsetString_grammar:
  assumes "h1 < 10" "h2 < 10" "10 * h1 + h2 < 24" "m1 < 10" "m2 < 10" "10 * m1 + m2 < 60"
    "s1 < 10" "s2 < 10" "10 * s1 + s2 < 60" "f1 < 10" "f2 < 10" "f3 < 10"
    "sg = CHR ''+'' \<or> sg = CHR ''-''"
    "colon = [] \<or> colon = '':''" "colon' = [] \<or> colon' = '':''"
    "dot = [] \<or> dot = ''.'' \<or> dot = '',''"
  shows
   "(\<forall>buf pos r. tryParsePrestoTimeOffsetString buf = (pos, Some r) \<longrightarrow> pos = length buf) \<and>
    tryParsePrestoTimeOffsetString [sg, digitChar h1, digitChar h2] =
      (3, Some ((if sg = CHR ''+'' then 1 else - 1) * (int (10 * h1 + h2) * 3600000))) \<and>
    tryParsePrestoTimeOffsetString
        ([sg, digitChar h1, digitChar h2] @ colon @ [digitChar m1, digitChar m2]) =
      (5 + length colon, Some ((if sg = CHR ''+'' then 1 else - 1) *
         (int (10 * h1 + h2) * 3600000 + int (10 * m1 + m2) * 60000))) \<and>
    tryParsePrestoTimeOffsetString
        ([sg, digitChar h1, digitChar h2] @ colon @ [digitChar m1, digitChar m2] @ colon' @
         [digitChar s1, digitChar s2]) =
      (7 + length colon + length colon', Some ((if sg = CHR ''+'' then 1 else - 1) *
         (int (10 * h1 + h2) * 3600000 + int (10 * m1 + m2) * 60000 +
          int (10 * s1 + s2) * 1000))) \<and>
    tryParsePrestoTimeOffsetString
        ([sg, digitChar h1, digitChar h2] @ colon @ [digitChar m1, digitChar m2] @ colon' @
         [digitChar s1, digitChar s2] @ dot @ [digitChar f1, digitChar f2, digitChar f3]) =
      (10 + length colon + length colon' + length dot,
       Some ((if sg = CHR ''+'' then 1 else - 1) *
         (int (10 * h1 + h2) * 3600000 + int (10 * m1 + m2) * 60000 +
          int (10 * s1 + s2) * 1000 + int (100 * f1 + 10 * f2 + f3)))) \<and>
    tryParsePrestoTimeOffsetString ''+05:30'' = (6, Some 19800000) \<and>
    tryParsePrestoTimeOffsetString ''-0530'' = (5, Some (- 19800000))"
proof -
  have a: "\<forall>buf pos r. tryParsePrestoTimeOffsetString buf = (pos, Some r) \<longrightarrow> pos = length buf"
    using offset_consumes_all by blast
  note b = offset_hour [OF assms(1-3,13)]
  have c: "tryParsePrestoTimeOffsetString
        ([sg, digitChar h1, digitChar h2] @ colon @ [digitChar m1, digitChar m2]) =
      (5 + length colon, Some ((if sg = CHR ''+'' then 1 else - 1) *
         (int (10 * h1 + h2) * 3600000 + int (10 * m1 + m2) * 60000)))"
    by (rule offset_hour_minute [OF assms(1-6,13,14)])
  have d: "tryParsePrestoTimeOffsetString
        ([sg, digitChar h1, digitChar h2] @ colon @ [digitChar m1, digitChar m2] @ colon' @
         [digitChar s1, digitChar s2]) =
      (7 + length colon + length colon', Some ((if sg = CHR ''+'' then 1 else - 1) *
         (int (10 * h1 + h2) * 3600000 + int (10 * m1 + m2) * 60000 +
          int (10 * s1 + s2) * 1000)))"
    using offset_hour_minute_second [OF assms(1-9,13,14,15)] by simp
  note full = offset_full [OF assms(1-13,16)]
  consider "colon = []" "colon' = []" | "colon = '':''" "colon' = []"
    | "colon = []" "colon' = '':''" | "colon = '':''" "colon' = '':''"
    using assms(14,15) by blast
  then have e: "tryParsePrestoTimeOffsetString
        ([sg, digitChar h1, digitChar h2] @ colon @ [digitChar m1, digitChar m2] @ colon' @
         [digitChar s1, digitChar s2] @ dot @ [digitChar f1, digitChar f2, digitChar f3]) =
      (10 + length colon + length colon' + length dot,
       Some ((if sg = CHR ''+'' then 1 else - 1) *
         (int (10 * h1 + h2) * 3600000 + int (10 * m1 + m2) * 60000 +
          int (10 * s1 + s2) * 1000 + int (100 * f1 + 10 * f2 + f3))))"
  proof cases
    case 1 then show ?thesis using full(1) by simp
  next
    case 2 then show ?thesis using full(2) by simp
  next
    case 3 then show ?thesis using full(3) by simp
  next
    case 4 then show ?thesis using full(4) by simp
  qed
  have f: "tryParsePrestoTimeOffsetString ''+05:30'' = (6, Some 19800000)" by code_simp
  have g: "tryParsePrestoTimeOffsetString ''-0530'' = (5, Some (- 19800000))" by code_simp
  show ?thesis using a b c d e f g by blast
qed

theorem tryParsePrestoTimeOffsetString_grammar_witness:
  "tryParsePrestoTimeOffsetString ''-05'' = (3, Some (- 18000000)) \<and>
   tryParsePrestoTimeOffsetString ''-05:30'' = (6, Some (- 19800000)) \<and>
   tryParsePrestoTimeOffsetString ''-05:3015'' = (8, Some (- 19815000)) \<and>
   tryParsePrestoTimeOffsetString ''-05:3015,123'' = (12, Some (- 19815123))"
  using tryParsePrestoTimeOffsetString_grammar [of 0 5 3 0 1 5 1 2 3 "CHR ''-''" "'':''" "[]" "'',''"]
  by (simp add: digitChar_literal)


subsection \<open>Date strings\<close>

lemma digitValue_range: "characterIsDigit c \<Longrightarrow> 0 \<le> digitValue c \<and> digitValue c \<le> 9"
proof -
  assume "characterIsDigit c"
  then have "48 \<le> (of_char c :: nat)" "(of_char c :: nat) \<le> 57"
    by (simp_all add: characterIsDigit_def)
  moreover have "(of_char c :: int) = int (of_char c)" by (simp only: of_nat_of_char)
  ultimately show ?thesis by (simp add: digitValue_def)
qed

lemma checked_throw:
  "checkedMultiply a b = Inl t \<Longrightarrow> t = ArithmeticOverflow"
  "checkedPlus a b = Inl t \<Longrightarrow> t = ArithmeticOverflow"
  "checkedNegate a = Inl t \<Longrightarrow> t = ArithmeticOverflow"
  by (simp_all add: checkedMultiply_def checkedPlus_def checkedNegate_def split: if_splits)

lemma parseYearDigits_throw:
  "parseYearDigits E buf pos year = Inl t \<Longrightarrow> t = ArithmeticOverflow"
proof (induction E buf pos year rule: parseYearDigits.induct)
  case (1 E buf pos year)
  show ?case
  proof (cases "pos < length buf \<and> characterIsDigit (buf ! pos)")
    case False
    with "1.prems" show ?thesis by (subst (asm) parseYearDigits.simps) auto
  next
    case True
    show ?thesis
    proof (cases "checkedMultiply year 10")
      case (Inl a)
      with "1.prems" True checked_throw(1) [OF Inl] show ?thesis
        by (subst (asm) parseYearDigits.simps) auto
    next
      case m: (Inr product)
      show ?thesis
      proof (cases "checkedPlus (digitValue (buf ! pos)) product")
        case (Inl a)
        with "1.prems" True m checked_throw(2) [OF Inl] show ?thesis
          by (subst (asm) parseYearDigits.simps) auto
      next
        case p: (Inr y)
        show ?thesis
        proof (cases "y > kMaxYear E")
          case True
          with "1.prems" \<open>pos < length buf \<and> characterIsDigit (buf ! pos)\<close> m p show ?thesis
            by (subst (asm) parseYearDigits.simps) auto
        next
          case False
          with "1.prems" True m p have "parseYearDigits E buf (pos + 1) y = Inl t"
            by (subst (asm) parseYearDigits.simps) auto
          from "1.IH" [OF True m p False this] show ?thesis .
        qed
      qed
    qed
  qed
qed

lemma parseYearDigits_no_throw:
  "kMaxYear E \<le> 214748363 \<Longrightarrow> 0 \<le> year \<Longrightarrow> year \<le> 214748363 \<Longrightarrow>
     \<exists>r. parseYearDigits E buf pos year = Inr r"
proof (induction E buf pos year rule: parseYearDigits.induct)
  case (1 E buf pos year)
  show ?case
  proof (cases "pos < length buf \<and> characterIsDigit (buf ! pos)")
    case False
    then show ?thesis by (subst parseYearDigits.simps) auto
  next
    case True
    then have dv: "0 \<le> digitValue (buf ! pos)" "digitValue (buf ! pos) \<le> 9"
      using digitValue_range by blast+
    have m: "checkedMultiply year 10 = Inr (year * 10)"
      using "1.prems" by (simp add: checkedMultiply_def isInt32_def int32Min_def int32Max_def)
    have p: "checkedPlus (digitValue (buf ! pos)) (year * 10) = Inr (digitValue (buf ! pos) + year * 10)"
      using "1.prems" dv by (simp add: checkedPlus_def isInt32_def int32Min_def int32Max_def)
    show ?thesis
    proof (cases "digitValue (buf ! pos) + year * 10 > kMaxYear E")
      case True
      with \<open>pos < length buf \<and> characterIsDigit (buf ! pos)\<close> m p show ?thesis
        by (subst parseYearDigits.simps) simp
    next
      case False
      have "\<exists>r. parseYearDigits E buf (pos + 1) (digitValue (buf ! pos) + year * 10) = Inr r"
        using "1.IH" [OF True m p] False "1.prems" dv by simp
      with \<open>pos < length buf \<and> characterIsDigit (buf ! pos)\<close> m p False show ?thesis
        by (subst parseYearDigits.simps) simp
    qed
  qed
qed

lemma parseYearDigits_year:
  "parseYearDigits E buf pos year = Inr (pos', year') \<Longrightarrow> 0 \<le> year \<Longrightarrow> isInt32 year \<Longrightarrow>
     0 \<le> year' \<and> isInt32 year'"
proof (induction E buf pos year rule: parseYearDigits.induct)
  case (1 E buf pos year)
  show ?case
  proof (cases "pos < length buf \<and> characterIsDigit (buf ! pos)")
    case False
    with "1.prems" show ?thesis by (subst (asm) parseYearDigits.simps) auto
  next
    case True
    then have dv: "0 \<le> digitValue (buf ! pos)" "digitValue (buf ! pos) \<le> 9"
      using digitValue_range by blast+
    from "1.prems"(1) True obtain product y where
      m: "checkedMultiply year 10 = Inr product" and
      p: "checkedPlus (digitValue (buf ! pos)) product = Inr y" and
      r: "(if y > kMaxYear E then Inr (pos, y) else parseYearDigits E buf (pos + 1) y) = Inr (pos', year')"
      by (subst (asm) parseYearDigits.simps) (auto split: sum.splits)
    from m have product: "product = year * 10"
      by (simp add: checkedMultiply_def split: if_splits)
    from p have y: "y = digitValue (buf ! pos) + product" "isInt32 y"
      by (simp_all add: checkedPlus_def split: if_splits)
    have y0: "0 \<le> y" using y product dv "1.prems"(2) by simp
    show ?thesis
    proof (cases "y > kMaxYear E")
      case True
      with r y0 y show ?thesis by auto
    next
      case False
      with r have "parseYearDigits E buf (pos + 1) y = Inr (pos', year')" by simp
      from "1.IH" [OF True m p False this y0 y(2)] show ?thesis .
    qed
  qed
qed


lemma checkedNegate_ok: "0 \<le> y \<Longrightarrow> isInt32 y \<Longrightarrow> checkedNegate y = Inr (- y)"
  by (simp add: checkedNegate_def isInt32_def int32Min_def int32Max_def)

lemma fields_throw:
  "tryParseDateString_fields E buf mode = Throws t \<Longrightarrow> t = ArithmeticOverflow"
  unfolding tryParseDateString_fields_def Let_def
  by (simp split: if_splits sum.splits prod.splits option.splits)
     (auto dest: parseYearDigits_throw checked_throw)

lemma fields_no_throw:
  assumes "kMaxYear E \<le> 214748363"
  shows "tryParseDateString_fields E buf mode \<noteq> Throws t"
proof
  assume a: "tryParseDateString_fields E buf mode = Throws t"
  have y: "\<And>pos. \<exists>r. parseYearDigits E buf pos 0 = Inr r"
    using parseYearDigits_no_throw [OF assms, of 0] by simp
  have n: "\<And>pos pos' y. parseYearDigits E buf pos 0 = Inr (pos', y) \<Longrightarrow> checkedNegate y = Inr (- y)"
    using parseYearDigits_year [of E buf _ 0] checkedNegate_ok
    by (simp add: isInt32_def int32Min_def int32Max_def)
  from a show False
    unfolding tryParseDateString_fields_def Let_def
    apply (simp split: if_splits sum.splits prod.splits option.splits)
    using y n by (metis sum.distinct(1))+
qed


lemma tryParseDateString_throw:
  "tryParseDateString E buf mode = Inl t \<Longrightarrow> t = ArithmeticOverflow"
  using fields_throw [of E buf mode]
  by (simp add: tryParseDateString_def split: Step.splits)

lemma tryParseDateString_no_throw:
  "kMaxYear E \<le> 214748363 \<Longrightarrow> tryParseDateString E buf mode \<noteq> Inl t"
  using fields_no_throw [of E buf mode]
  by (simp add: tryParseDateString_def split: Step.splits)

text \<open>
  What a call of \<open>fromDateString\<close> can do. In the dialects \<open>kPrestoCast\<close>,
  \<open>kSparkCast\<close> and \<open>kIso8601\<close>, and in every dialect when the error details are
  suppressed, it returns a day count or a user error, or passes on the overflow that the
  checked arithmetic throws while the year is accumulated; that overflow cannot happen
  when \<open>kMaxYear\<close> is at most 214748363. In the dialects \<open>kStrict\<close> and \<open>kNonStrict\<close>
  with error details enabled, a failed parse ends in \<^verbatim>\<open>VELOX_UNREACHABLE()\<close>.
\<close>

lemma fromDateString_outcomes:
  "((mode = kPrestoCast \<or> mode = kSparkCast \<or> mode = kIso8601 \<or> threadSkipErrorDetails E) \<longrightarrow>
      ((\<exists>d. fromDateString E str mode = Inr (Inr d)) \<or>
       (\<exists>m. fromDateString E str mode = Inr (Inl (UserError m))) \<or>
       fromDateString E str mode = Inl ArithmeticOverflow)) \<and>
   (kMaxYear E \<le> 214748363 \<longrightarrow> fromDateString E str mode \<noteq> Inl ArithmeticOverflow) \<and>
   ((mode = kStrict \<or> mode = kNonStrict) \<and> \<not> threadSkipErrorDetails E \<and>
      (\<exists>pos. tryParseDateString E str mode = Inr (pos, None)) \<longrightarrow>
      fromDateString E str mode = Inl Unreachable)"
proof (intro conjI impI)
  assume a: "mode = kPrestoCast \<or> mode = kSparkCast \<or> mode = kIso8601 \<or> threadSkipErrorDetails E"
  show "(\<exists>d. fromDateString E str mode = Inr (Inr d)) \<or>
       (\<exists>m. fromDateString E str mode = Inr (Inl (UserError m))) \<or>
       fromDateString E str mode = Inl ArithmeticOverflow"
  proof (cases "tryParseDateString E str mode")
    case (Inl t)
    with tryParseDateString_throw [OF Inl] show ?thesis by (simp add: fromDateString_def)
  next
    case (Inr r)
    obtain pos res where r: "r = (pos, res)" by (cases r)
    show ?thesis
    proof (cases res)
      case None
      with a Inr r show ?thesis by (auto simp: fromDateString_def)
    next
      case (Some d)
      with Inr r show ?thesis by (simp add: fromDateString_def)
    qed
  qed
next
  assume k: "kMaxYear E \<le> 214748363"
  show "fromDateString E str mode \<noteq> Inl ArithmeticOverflow"
  proof (cases "tryParseDateString E str mode")
    case (Inl t)
    with tryParseDateString_no_throw [OF k, of str mode t] show ?thesis by simp
  next
    case (Inr r)
    then show ?thesis
      by (auto simp: fromDateString_def split: prod.splits option.splits ParseMode.splits)
  qed
next
  assume "(mode = kStrict \<or> mode = kNonStrict) \<and> \<not> threadSkipErrorDetails E \<and>
      (\<exists>pos. tryParseDateString E str mode = Inr (pos, None))"
  then show "fromDateString E str mode = Inl Unreachable"
    by (auto simp: fromDateString_def)
qed

text \<open>
  Claim C1. \<open>fromDateString\<close> is to return an explicit result, a day count or a user
  error, for every input in each of the five dialects, its internal assertion being
  unreachable. The source reaches the assertion: with error details enabled, an input
  that does not parse in the dialect \<open>kStrict\<close> or \<open>kNonStrict\<close> falls to the default
  branch of the switch over the dialects, \<^verbatim>\<open>VELOX_UNREACHABLE()\<close>. The same input
  returns a user error when the details are suppressed, and so does a failed parse in
  the three other dialects.
\<close>

theorem fromDateString_strict_reaches_assertion:
  "fromDateString sampleEnv [] kStrict = Inl Unreachable \<and>
   fromDateString sampleEnv ''abc'' kNonStrict = Inl Unreachable \<and>
   fromDateString (sampleEnv\<lparr>threadSkipErrorDetails := True\<rparr>) [] kStrict =
     Inr (Inl (UserError NoDetails)) \<and>
   fromDateString sampleEnv [] kPrestoCast =
     Inr (Inl (UserError (UnableToParseDate kPrestoCast))) \<and>
   fromDateString sampleEnv ''2020-01-15'' kStrict = Inr (Inr 18276)"
  by code_simp

text \<open>
  Claim C3. In the dialect \<open>kSparkCast\<close> a year of fewer than four digits is to be
  rejected, the sign not counted. The source compares \<^verbatim>\<open>pos - sign\<close> with 4, and
  \<^verbatim>\<open>pos\<close> also counts the leading spaces that were skipped: after one space a year of
  three digits is accepted, while the same year without the space is rejected.
\<close>

theorem sparkCast_year_digits_leading_space:
  "tryParseDateString sampleEnv '' 123'' kSparkCast = Inr (4, Some (- 674603)) \<and>
   fromDateString sampleEnv '' 123'' kSparkCast = Inr (Inr (- 674603)) \<and>
   fromDateString sampleEnv ''123'' kSparkCast = Inr (Inl (UserError (UnableToParseDate kSparkCast)))"
  by code_simp



subsection \<open>Timestamp strings\<close>

lemma skipSpaces_not_space:
  "pos < length buf \<Longrightarrow> \<not> characterIsSpace (buf ! pos) \<Longrightarrow> skipSpaces buf pos = pos"
  by (subst skipSpaces.simps) simp

lemma fromDatetime_midnight: "fromDatetime d 0 = \<lparr>getSeconds = d * 86400, getNanos = 0\<rparr>"
  by (simp add: fromDatetime_def kSecsPerDay_def kMicrosPerSec_def kNanosPerMicro_def)


text \<open>
  Claim C10. In the dialect \<open>kTsIso8601\<close> an input that begins with \<open>T\<close> and has at
  least one more character is parsed without a date: the day count is 0 (1970-01-01)
  and what follows the \<open>T\<close> is given to the time parser (when that fails, the result is
  day 0 at midnight with the position after the \<open>T\<close>). The input \<open>T\<close> alone fails.
\<close>

theorem tryParseTimestampString_time_only:
  "tryParseTimestampString E (CHR ''T'' # c # rest) 0 kTsIso8601 =
     Inr (case tryParseTimeString (c # rest) kTsIso8601 of
            (timePos, None) \<Rightarrow> (1, Some (fromDatetime 0 0))
          | (timePos, Some microsSinceMidnight) \<Rightarrow>
              (1 + timePos, Some (fromDatetime 0 microsSinceMidnight))) \<and>
   fromDatetime 0 0 = \<lparr>getSeconds = 0, getNanos = 0\<rparr> \<and>
   tryParseTimestampString E ''T'' 0 kTsIso8601 = Inr (0, None)"
proof -
  have s: "skipSpaces (CHR ''T'' # c # rest) 0 = 0" "skipSpaces ''T'' 0 = 0"
    by (simp_all add: skipSpaces_not_space characterIsSpace_def)
  show ?thesis
    by (simp add: tryParseTimestampString_def s parseTimeSeparator_def fromDatetime_midnight
        split: prod.split option.split)
qed

theorem tryParseTimestampString_time_only_witness:
  "tryParseTimestampString sampleEnv ''T12:30'' 0 kTsIso8601 =
     Inr (6, Some \<lparr>getSeconds = 45000, getNanos = 0\<rparr>) \<and>
   tryParseTimestampString sampleEnv ''Tx'' 0 kTsIso8601 =
     Inr (1, Some \<lparr>getSeconds = 0, getNanos = 0\<rparr>)"
proof -
  have a: "tryParseTimeString ''12:30'' kTsIso8601 = (5, Some 45000000000)" by code_simp
  have b: "tryParseTimeString ''x'' kTsIso8601 = (0, None)" by code_simp
  have c: "fromDatetime 0 45000000000 = \<lparr>getSeconds = 45000, getNanos = 0\<rparr>" by code_simp
  show ?thesis
    using tryParseTimestampString_time_only [of sampleEnv "CHR ''1''" "''2:30''"]
      tryParseTimestampString_time_only [of sampleEnv "CHR ''x''" "[]"] a b c
    by simp
qed


lemma characterIsDigit_T [simp]: "\<not> characterIsDigit CHR ''T''"
  by (simp add: characterIsDigit_def)

lemma tryParseDateString_leading_T:
  assumes "buf \<noteq> []" "buf ! 0 = CHR ''T''"
  shows "tryParseDateString E buf mode = Inr (0, None)"
proof -
  have "skipSpaces buf 0 = 0"
    using assms by (simp add: skipSpaces_not_space characterIsSpace_def)
  then show ?thesis
    using assms
    by (simp add: tryParseDateString_def tryParseDateString_fields_def)
qed

lemma daysSinceEpochFromDate_env:
  "isValidDate E y m d \<Longrightarrow> isValidDate E' y m d \<Longrightarrow>
     daysSinceEpochFromDate E y m d = daysSinceEpochFromDate E' y m d"
  by (simp add: daysSinceEpochFromDate_def)

lemma days_2020_01_01:
  assumes "kMinYear E \<le> 2020" "2020 \<le> kMaxYear E"
  shows "daysSinceEpochFromDate E 2020 1 1 = Inr 18262"
proof -
  have a: "isValidDate E 2020 1 1"
    using assms by (simp add: isValidDate_def kLeapDays_def kNormalDays_def)
  have b: "isValidDate sampleEnv 2020 1 1" by code_simp
  have c: "daysSinceEpochFromDate sampleEnv 2020 1 1 = Inr 18262" by code_simp
  show ?thesis using daysSinceEpochFromDate_env [OF a b] c by simp
qed

lemmas parseYearDigits_unroll =
  parseYearDigits.simps [where year = 0] parseYearDigits.simps [where year = 2]
  parseYearDigits.simps [where year = 20] parseYearDigits.simps [where year = 202]
  parseYearDigits.simps [where year = 2020]

lemma isInt32_small: "- 2147483648 \<le> x \<Longrightarrow> x \<le> 2147483647 \<Longrightarrow> isInt32 x"
  by (simp add: isInt32_def int32Min_def int32Max_def)

lemma year_2020:
  assumes "2020 \<le> kMaxYear E"
  shows "parseYearDigits E ''2020-01-01 notatime'' 0 0 = Inr (4, 2020)"
  using assms
  by (simp add: parseYearDigits_unroll characterIsDigit_def digitValue_def checkedMultiply_def
      checkedPlus_def isInt32_small)

lemma date_2020_nonstrict:
  assumes "kMinYear E \<le> 2020" "2020 \<le> kMaxYear E"
  shows "tryParseDateString E ''2020-01-01 notatime'' kNonStrict = Inr (10, Some 18262)"
proof -
  have s: "skipSpaces ''2020-01-01 notatime'' 0 = 0"
    by (subst skipSpaces.simps) (simp add: characterIsSpace_def)
  show ?thesis
    by (simp add: tryParseDateString_def tryParseDateString_fields_def s year_2020 [OF assms(2)]
        parseDoubleDigit_def characterIsDigit_def digitValue_def
        tryParseDateString_trailing_def trailingBC_def days_2020_01_01 [OF assms])
qed

lemma date_2020_spark:
  assumes "kMinYear E \<le> 2020" "2020 \<le> kMaxYear E"
  shows "tryParseDateString E ''2020-01-01 notatime'' kSparkCast = Inr (10, Some 18262)"
proof -
  have s: "skipSpaces ''2020-01-01 notatime'' 0 = 0"
    by (subst skipSpaces.simps) (simp add: characterIsSpace_def)
  show ?thesis
    by (simp add: tryParseDateString_def tryParseDateString_fields_def s year_2020 [OF assms(2)]
        parseDoubleDigit_def characterIsDigit_def digitValue_def
        tryParseDateString_trailing_def validDate_def int32Min_def int32Max_def
        days_2020_01_01 [OF assms])
qed

lemma notatime_time:
  "tryParseTimeString ''notatime'' parseMode = (0, None)"
  "tryParseTimeString '' notatime'' kTsIso8601 = (0, None)"
proof -
  have s: "skipSpaces ''notatime'' 0 = 0"
    by (subst skipSpaces.simps) (simp add: characterIsSpace_def)
  show "tryParseTimeString ''notatime'' parseMode = (0, None)"
    by (simp add: tryParseTimeString_def s characterIsDigit_def)
  show "tryParseTimeString '' notatime'' kTsIso8601 = (0, None)"
    by (simp add: tryParseTimeString_def characterIsDigit_def)
qed

lemma notatime_composer:
  assumes "kMinYear E \<le> 2020" "2020 \<le> kMaxYear E"
  shows "tryParseTimestampString E ''2020-01-01 notatime'' 0 parseMode =
      Inr (if parseMode = kTsIso8601 then 10 else 11,
           Some \<lparr>getSeconds = 1577836800, getNanos = 0\<rparr>)"
proof -
  have s: "skipSpaces ''2020-01-01 notatime'' 0 = 0"
    by (subst skipSpaces.simps) (simp add: characterIsSpace_def)
  have d: "\<And>m. tryParseDateString E ''2020-01-01 notatime'' (dateModeOf m) = Inr (10, Some 18262)"
    using date_2020_nonstrict [OF assms] date_2020_spark [OF assms]
    by (simp add: dateModeOf_def)
  show ?thesis
    by (cases parseMode)
       (simp_all add: tryParseTimestampString_def s d parseTimeSeparator_def notatime_time
          fromDatetime_midnight)
qed

lemma notatime_token:
  "skipToSpace ''2020-01-01 notatime'' 11 = 19"
  "skipSpaces ''2020-01-01 notatime'' 19 = 19"
  "tryParsePrestoTimeOffsetString ''notatime'' = (0, None)"
  by code_simp+

lemma notatime_zone:
  assumes "kMinYear E \<le> 2020" "2020 \<le> kMaxYear E" "locateZone ''notatime'' = None"
  shows "fromTimestampWithTimezoneString E locateZone ''2020-01-01 notatime'' parseMode =
      Inr (Inl (if parseMode = kTsIso8601 then parserError E
                else UserError (UnknownTimezoneValue ''notatime'')))"
  using assms(3)
  by (cases parseMode)
     (simp_all add: fromTimestampWithTimezoneString_def notatime_composer [OF assms(1,2)]
        characterIsSpace_def notatime_token)


text \<open>
  Claim C2, as amended. When the date of the input parses, ending at \<open>datePos\<close> before
  the end of the input, and what follows the optional separator of the dialect is not a
  valid time, \<open>tryParseTimestampString\<close> does not fail: it returns the date at midnight.
  The position it reports is the one after the separator of the dialect when that
  character follows the date (\<open>T\<close> except in \<open>kTsPrestoCast\<close>, a space except in
  \<open>kTsIso8601\<close>), and the one right after the date otherwise. (In \<open>kTsIso8601\<close> an input
  with leading whitespace fails before the date is read.) For \<open>2020-01-01 notatime\<close>,
  with no zone of the name \<open>notatime\<close>, the zone-aware entry point fails with the error
  of an unknown time zone in the dialects other than \<open>kTsIso8601\<close>, and with the parser
  error in \<open>kTsIso8601\<close>, where the remainder does not start with \<open>Z\<close>, \<open>+\<close> or \<open>-\<close>.
\<close>

theorem tryParseTimestampString_partial_success:
  "(tryParseDateString E buf (dateModeOf parseMode) = Inr (datePos, Some daysSinceEpoch) \<and>
    (parseMode = kTsIso8601 \<longrightarrow> skipSpaces buf 0 = 0) \<and>
    datePos \<noteq> length buf \<and>
    snd (tryParseTimeString (drop (parseTimeSeparator buf datePos parseMode) buf) parseMode) = None
    \<longrightarrow>
      tryParseTimestampString E buf 0 parseMode =
        Inr (parseTimeSeparator buf datePos parseMode,
             Some \<lparr>getSeconds = daysSinceEpoch * 86400, getNanos = 0\<rparr>) \<and>
      parseTimeSeparator buf datePos parseMode =
        (if (buf ! datePos = CHR ''T'' \<and> parseMode \<noteq> kTsPrestoCast) \<or>
            (buf ! datePos = CHR '' '' \<and> parseMode \<noteq> kTsIso8601)
         then datePos + 1 else datePos)) \<and>
   (kMinYear E \<le> 2020 \<and> 2020 \<le> kMaxYear E \<and> locateZone ''notatime'' = None \<longrightarrow>
      tryParseTimestampString E ''2020-01-01 notatime'' 0 parseMode =
        Inr (if parseMode = kTsIso8601 then 10 else 11,
             Some \<lparr>getSeconds = 1577836800, getNanos = 0\<rparr>) \<and>
      fromTimestampWithTimezoneString E locateZone ''2020-01-01 notatime'' parseMode =
        Inr (Inl (if parseMode = kTsIso8601 then parserError E
                  else UserError (UnknownTimezoneValue ''notatime''))))"
proof (intro conjI impI)
  assume h: "tryParseDateString E buf (dateModeOf parseMode) = Inr (datePos, Some daysSinceEpoch) \<and>
    (parseMode = kTsIso8601 \<longrightarrow> skipSpaces buf 0 = 0) \<and>
    datePos \<noteq> length buf \<and>
    snd (tryParseTimeString (drop (parseTimeSeparator buf datePos parseMode) buf) parseMode) = None"
  then have notT: "\<not> (0 < length buf \<and> buf ! 0 = CHR ''T'')"
    using tryParseDateString_leading_T [of buf E "dateModeOf parseMode"] by auto
  have "tryParseTimestampString E buf 0 parseMode =
      Inr (parseTimeSeparator buf datePos parseMode, Some (fromDatetime daysSinceEpoch 0))"
    using h notT
    by (cases "tryParseTimeString (drop (parseTimeSeparator buf datePos parseMode) buf) parseMode";
        cases "parseMode = kTsIso8601")
       (auto simp: tryParseTimestampString_def Let_def)
  then show "tryParseTimestampString E buf 0 parseMode =
      Inr (parseTimeSeparator buf datePos parseMode,
           Some \<lparr>getSeconds = daysSinceEpoch * 86400, getNanos = 0\<rparr>)"
    by (simp only: fromDatetime_midnight)
  show "parseTimeSeparator buf datePos parseMode =
      (if (buf ! datePos = CHR ''T'' \<and> parseMode \<noteq> kTsPrestoCast) \<or>
          (buf ! datePos = CHR '' '' \<and> parseMode \<noteq> kTsIso8601)
       then datePos + 1 else datePos)"
    by (cases parseMode) (simp_all add: parseTimeSeparator_def)
next
  assume h: "kMinYear E \<le> 2020 \<and> 2020 \<le> kMaxYear E \<and> locateZone ''notatime'' = None"
  then show "tryParseTimestampString E ''2020-01-01 notatime'' 0 parseMode =
        Inr (if parseMode = kTsIso8601 then 10 else 11,
             Some \<lparr>getSeconds = 1577836800, getNanos = 0\<rparr>)"
    using notatime_composer by blast
  from h show "fromTimestampWithTimezoneString E locateZone ''2020-01-01 notatime'' parseMode =
        Inr (Inl (if parseMode = kTsIso8601 then parserError E
                  else UserError (UnknownTimezoneValue ''notatime'')))"
    using notatime_zone by blast
qed

theorem tryParseTimestampString_partial_success_witness:
  "tryParseDateString sampleEnv ''2020-01-01Tnotatime'' (dateModeOf kTsSparkCast) =
     Inr (10, Some 18262) \<and>
   tryParseTimestampString sampleEnv ''2020-01-01Tnotatime'' 0 kTsSparkCast =
     Inr (11, Some \<lparr>getSeconds = 1577836800, getNanos = 0\<rparr>) \<and>
   fromTimestampWithTimezoneString sampleEnv onlyUTC ''2020-01-01 notatime'' kTsSparkCast =
     Inr (Inl (UserError (UnknownTimezoneValue ''notatime'')))"
proof -
  have a: "tryParseDateString sampleEnv ''2020-01-01Tnotatime'' (dateModeOf kTsSparkCast) =
     Inr (10, Some 18262)" by code_simp
  have b: "parseTimeSeparator ''2020-01-01Tnotatime'' 10 kTsSparkCast = 11" by code_simp
  have c: "snd (tryParseTimeString (drop 11 ''2020-01-01Tnotatime'') kTsSparkCast) = None"
    by code_simp
  have d: "kMinYear sampleEnv \<le> 2020 \<and> 2020 \<le> kMaxYear sampleEnv \<and> onlyUTC ''notatime'' = None"
    by code_simp
  have e: "(18262::int) * 86400 = 1577836800" by simp
  from tryParseTimestampString_partial_success
    [of sampleEnv "''2020-01-01Tnotatime''" kTsSparkCast 10 18262 onlyUTC] a b c d e
  show ?thesis by simp
qed

text \<open>
  The claim as stated fails on its own example: in \<open>kTsPrestoCast\<close> the date of
  \<open>2020-01-01 notatime\<close> ends at position 10 and the position reported is 11, after the
  space; and in \<open>kTsIso8601\<close> the overall parse fails with the parser error, not with the
  error of an unknown time zone.
\<close>

theorem tryParseTimestampString_position_counterexample:
  "tryParseDateString sampleEnv ''2020-01-01 notatime'' (dateModeOf kTsPrestoCast) =
     Inr (10, Some 18262) \<and>
   tryParseTimestampString sampleEnv ''2020-01-01 notatime'' 0 kTsPrestoCast =
     Inr (11, Some \<lparr>getSeconds = 1577836800, getNanos = 0\<rparr>) \<and>
   fromTimestampWithTimezoneString sampleEnv onlyUTC ''2020-01-01 notatime'' kTsIso8601 =
     Inr (Inl (UserError UnableToParseTimestamp))"
  by code_simp



subsection \<open>The marker of years before Christ\<close>

lemma skipSpaces_ge: "pos \<le> skipSpaces buf pos"
proof (induction buf pos rule: skipSpaces.induct)
  case (1 buf pos)
  show ?case
  proof (cases "pos < length buf \<and> characterIsSpace (buf ! pos)")
    case True
    with "1.IH" have "pos + 1 \<le> skipSpaces buf (pos + 1)" by simp
    with True show ?thesis by (subst skipSpaces.simps) simp
  next
    case False
    then show ?thesis by (subst skipSpaces.simps) auto
  qed
qed

lemma trailingBC_I:
  assumes "characterIsSpace (buf ! pos)" "take 4 (drop (pos + 1) buf) = ''(BC)''"
  shows "trailingBC buf pos"
proof -
  from assms(2) have "length (take 4 (drop (pos + 1) buf)) = 4" by simp
  then have len: "pos + 5 \<le> length buf" by simp
  have n: "\<And>i. i < 4 \<Longrightarrow> buf ! (pos + 1 + i) = ''(BC)'' ! i"
  proof -
    fix i :: nat assume i: "i < 4"
    have "take 4 (drop (pos + 1) buf) ! i = buf ! (pos + 1 + i)"
      using i len by simp
    then show "buf ! (pos + 1 + i) = ''(BC)'' ! i" using assms(2) by simp
  qed
  from n [of 0] n [of 1] n [of 2] n [of 3] assms(1) len
  show ?thesis by (simp add: trailingBC_def add.commute numeral_eq_Suc)
qed

text \<open>
  Claim C9. In the dialects \<open>kStrict\<close> and \<open>kNonStrict\<close>, when the day is followed by
  one whitespace character (a space in particular) and \<open>(BC)\<close>, the parse succeeds only
  if the year was read without a \<open>-\<close> sign and is not zero; the year then becomes
  \<open>1 - year\<close>, the parse fails if that is below \<open>kMinYear\<close>, and otherwise the trailing
  rule of the dialect and the calendar engine are applied to the new year from the
  position after the marker.
\<close>

theorem tryParseDateString_BC_marker:
  assumes mode: "mode = kStrict \<or> mode = kNonStrict"
    and st: "tryParseDateString_fields E buf mode = Goes (pos, year, yearneg, month, day)"
    and marker: "characterIsSpace (buf ! pos)" "take 4 (drop (pos + 1) buf) = ''(BC)''"
  shows
   "(yearneg \<or> year = 0 \<longrightarrow> tryParseDateString E buf mode = Inr (pos, None)) \<and>
    (\<not> yearneg \<and> year \<noteq> 0 \<and> 1 - year < kMinYear E \<longrightarrow>
       tryParseDateString E buf mode = Inr (pos + 5, None)) \<and>
    (\<not> yearneg \<and> year \<noteq> 0 \<and> kMinYear E \<le> 1 - year \<longrightarrow>
       tryParseDateString E buf mode =
         Inr (let end = (if mode = kStrict then skipSpaces buf (pos + 5) else pos + 5) in
              if end < length buf \<and> (mode = kStrict \<or> characterIsDigit (buf ! end))
              then (end, None)
              else (case daysSinceEpochFromDate E (1 - year) month day of
                      Inl e \<Rightarrow> (end, None)
                    | Inr daysSinceEpoch \<Rightarrow> (end, Some daysSinceEpoch)))) \<and>
    (\<forall>end daysSinceEpoch. tryParseDateString E buf mode = Inr (end, Some daysSinceEpoch) \<longrightarrow>
       \<not> yearneg \<and> year \<noteq> 0 \<and> kMinYear E \<le> 1 - year \<and> pos + 5 \<le> end \<and>
       daysSinceEpochFromDate E (1 - year) month day = Inr daysSinceEpoch)"
proof -
  note bc = trailingBC_I [OF marker]
  have a: "yearneg \<or> year = 0 \<Longrightarrow> tryParseDateString E buf mode = Inr (pos, None)"
    using mode bc by (auto simp: tryParseDateString_def st tryParseDateString_trailing_def)
  have b: "\<not> yearneg \<and> year \<noteq> 0 \<and> 1 - year < kMinYear E \<Longrightarrow>
       tryParseDateString E buf mode = Inr (pos + 5, None)"
    using mode bc by (auto simp: tryParseDateString_def st tryParseDateString_trailing_def)
  have c: "\<not> yearneg \<and> year \<noteq> 0 \<and> kMinYear E \<le> 1 - year \<Longrightarrow>
       tryParseDateString E buf mode =
         Inr (let end = (if mode = kStrict then skipSpaces buf (pos + 5) else pos + 5) in
              if end < length buf \<and> (mode = kStrict \<or> characterIsDigit (buf ! end))
              then (end, None)
              else (case daysSinceEpochFromDate E (1 - year) month day of
                      Inl e \<Rightarrow> (end, None)
                    | Inr daysSinceEpoch \<Rightarrow> (end, Some daysSinceEpoch)))"
    using mode bc
    by (auto simp: tryParseDateString_def st tryParseDateString_trailing_def Let_def
        split: sum.splits)
  have d: "\<not> yearneg \<and> year \<noteq> 0 \<and> kMinYear E \<le> 1 - year \<and> pos + 5 \<le> end \<and>
       daysSinceEpochFromDate E (1 - year) month day = Inr daysSinceEpoch"
    if ok: "tryParseDateString E buf mode = Inr (end, Some daysSinceEpoch)" for "end" daysSinceEpoch
  proof -
    have 1: "\<not> (yearneg \<or> year = 0)" using a ok by auto
    have 2: "\<not> (1 - year < kMinYear E)" using b 1 ok by auto
    have 3: "pos + 5 \<le> skipSpaces buf (pos + 5)" by (rule skipSpaces_ge)
    from c 1 2 ok 3 show ?thesis
      by (auto simp: Let_def split: if_splits sum.splits)
  qed
  show ?thesis using a b c d by blast
qed

theorem tryParseDateString_BC_marker_witness:
  "tryParseDateString sampleEnv ''0044-03-15 (BC)'' kStrict = Inr (15, Some (- 735160)) \<and>
   daysSinceEpochFromDate sampleEnv (- 43) 3 15 = Inr (- 735160) \<and>
   tryParseDateString sampleEnv ''-0044-03-15 (BC)'' kNonStrict = Inr (11, None) \<and>
   tryParseDateString (sampleEnv\<lparr>kMinYear := - 40\<rparr>) ''0044-03-15 (BC)'' kStrict = Inr (15, None)"
proof -
  have a: "tryParseDateString_fields sampleEnv ''0044-03-15 (BC)'' kStrict =
      Goes (10, 44, False, 3, 15)" by code_simp
  have b: "characterIsSpace (''0044-03-15 (BC)'' ! 10)"
    "take 4 (drop (10 + 1) ''0044-03-15 (BC)'') = ''(BC)''" by code_simp+
  have c: "tryParseDateString sampleEnv ''0044-03-15 (BC)'' kStrict = Inr (15, Some (- 735160))"
    by code_simp
  have d: "tryParseDateString_fields sampleEnv ''-0044-03-15 (BC)'' kNonStrict =
      Goes (11, - 44, True, 3, 15)" by code_simp
  have e: "characterIsSpace (''-0044-03-15 (BC)'' ! 11)"
    "take 4 (drop (11 + 1) ''-0044-03-15 (BC)'') = ''(BC)''" by code_simp+
  have f: "tryParseDateString_fields (sampleEnv\<lparr>kMinYear := - 40\<rparr>) ''0044-03-15 (BC)'' kStrict =
      Goes (10, 44, False, 3, 15)" by code_simp
  have g: "1 - 44 < kMinYear (sampleEnv\<lparr>kMinYear := - 40\<rparr>)" by simp
  from tryParseDateString_BC_marker [OF _ a b] c
  have 1: "daysSinceEpochFromDate sampleEnv (- 43) 3 15 = Inr (- 735160)" by simp
  from tryParseDateString_BC_marker [OF _ d e]
  have 2: "tryParseDateString sampleEnv ''-0044-03-15 (BC)'' kNonStrict = Inr (11, None)" by simp
  from tryParseDateString_BC_marker [OF _ f b] g
  have 3: "tryParseDateString (sampleEnv\<lparr>kMinYear := - 40\<rparr>) ''0044-03-15 (BC)'' kStrict =
      Inr (15, None)" by simp
  show ?thesis using c 1 2 3 by simp
qed



subsection \<open>Week-of-month dates\<close>

lemma dayOfTheWeek_range:
  "1 \<le> extractISODayOfTheWeek d \<and> extractISODayOfTheWeek d \<le> 7"
proof -
  have "0 \<le> (d + 3) mod 7" by simp
  moreover have "(d + 3) mod 7 < 7" by simp
  ultimately show ?thesis unfolding extractISODayOfTheWeek_floor by linarith
qed

lemma neg_div_mod_12:
  fixes month :: int
  shows "(- month) div 12 = - ((month - 1) div 12) - 1" and "(- month) mod 12 = 11 - (month - 1) mod 12"
proof -
  define q where "q = (month - 1) div 12"
  define r where "r = (month - 1) mod 12"
  have qr: "month - 1 = 12 * q + r" by (simp add: q_def r_def)
  have r: "0 \<le> r" "r < 12" by (simp_all add: r_def)
  have eq: "- month = 12 * (- q - 1) + (11 - r)" using qr by simp
  have r': "0 \<le> 11 - r" "11 - r < 12" using r by simp_all
  show "(- month) div 12 = - ((month - 1) div 12) - 1"
    using int_div_pos_eq [OF eq r'] by (simp add: q_def)
  show "(- month) mod 12 = 11 - (month - 1) mod 12"
    using int_mod_pos_eq [OF eq r'] by (simp add: r_def)
qed

lemma ceil_div_7: "- ((- n) div 7) = (n + 6) div (7::int)"
proof -
  define q where "q = (n + 6) div 7"
  define r where "r = (n + 6) mod 7"
  have qr: "n + 6 = 7 * q + r" by (simp add: q_def r_def)
  have r: "0 \<le> r" "r < 7" by (simp_all add: r_def)
  have eq: "- n = 7 * (- q) + (6 - r)" using qr by simp
  have r': "0 \<le> 6 - r" "6 - r < 7" using r by simp_all
  show ?thesis using int_div_pos_eq [OF eq r'] by (simp add: q_def)
qed

lemma week_count_aux: "1 + (len - (7 - fdow + 1) + 6) div 7 = (fdow - 1 + len + 6) div (7::int)"
proof -
  have "fdow - 1 + len + 6 = (len - (7 - fdow + 1) + 6) + 7 * 1" by simp
  also have "\<dots> div 7 = (len - (7 - fdow + 1) + 6) div 7 + 1"
    by (simp only: div_mult_self2 [of 7])
  finally show ?thesis by simp
qed

lemma last_week_aux: "(len - (7 - fdow + 1)) mod 7 = (fdow - 1 + len) mod (7::int)"
proof -
  have "fdow - 1 + len = (len - (7 - fdow + 1)) + 7 * 1" by simp
  also have "\<dots> mod 7 = (len - (7 - fdow + 1)) mod 7" by (rule mod_mult_self2)
  finally show ?thesis by simp
qed

lemma month_normalization:
  "(if month < 1 then (month sdiv 12 - 1, 12 - \<bar>month\<bar> smod 12)
    else if month > 12 then ((month - 1) sdiv 12, (month - 1) smod 12 + 1)
    else (0, month)) = ((month - 1) div 12, (month - 1) mod 12 + 1)"
  for month :: int
proof -
  consider "month < 1" | "1 \<le> month" "month \<le> 12" | "12 < month" by linarith
  then show ?thesis
  proof cases
    case 1
    have "\<bar>month\<bar> smod 12 = \<bar>month\<bar> mod 12"
      by (simp add: smod_pos_divisor [of 12 "\<bar>month\<bar>"])
    also have "\<dots> = (- month) mod 12" using 1 by simp
    finally have m: "\<bar>month\<bar> smod 12 = 11 - (month - 1) mod 12"
      by (simp only: neg_div_mod_12)
    have "month sdiv 12 = - ((- month) div 12)"
      using 1 by (simp add: signed_divide_int_def sgn_if)
    then have d: "month sdiv 12 = (month - 1) div 12 + 1"
      by (simp add: neg_div_mod_12)
    have c1: "month sdiv 12 - 1 = (month - 1) div 12" using d by simp
    have c2: "12 - \<bar>month\<bar> smod 12 = (month - 1) mod 12 + 1" using m by simp
    show ?thesis
      using 1 c1 c2 by simp
  next
    case 2
    then have "(month - 1) div 12 = 0" "(month - 1) mod 12 = month - 1" by simp_all
    with 2 show ?thesis by simp
  next
    case 3
    then show ?thesis by (simp add: sdiv_pos_divisor smod_pos_divisor)
  qed
qed

lemma narrow32_abs:
  "isInt32 x \<Longrightarrow> x \<noteq> int32Min \<Longrightarrow> narrow32 \<bar>x\<bar> = \<bar>x\<bar>"
  by (rule narrow32_id) (auto simp: isInt32_def int32Min_def int32Max_def abs_if)

lemma weekOfMonth_pair:
  assumes "isInt32 month" "month \<noteq> int32Min"
  shows "(if month < 1 then (month sdiv 12 - 1, 12 - narrow32 \<bar>month\<bar> smod 12)
          else if month > 12 then ((month - 1) sdiv 12, (month - 1) smod 12 + 1)
          else (0, month)) = ((month - 1) div 12, (month - 1) mod 12 + 1)"
  unfolding narrow32_abs [OF assms] by (rule month_normalization)

lemma weekOfMonth_days:
  assumes "isInt32 (dayOfWeek - 1)" "dayOfWeek - 1 \<noteq> int32Min"
  shows "(if dayOfWeek < 1 then 7 - narrow32 \<bar>narrow32 (dayOfWeek - 1)\<bar> smod 7
          else if dayOfWeek > 7 then (dayOfWeek - 1) smod 7
          else dayOfWeek smod 7) = adjustedDayOfWeek dayOfWeek"
  unfolding narrow32_id [OF assms(1)] narrow32_abs [OF assms] adjustedDayOfWeek_def ..

lemma weekOfMonth_computation:
  assumes o: "noSignedOverflow year month weekOfMonth dayOfWeek"
    and run: "lenient \<or> isValidWeekOfMonthDate E year month weekOfMonth dayOfWeek"
  shows "daysSinceEpochFromWeekOfMonthDate E year month weekOfMonth dayOfWeek lenient =
     fromFirstDayOfMonth E (year + (month - 1) div 12) ((month - 1) mod 12 + 1) weekOfMonth dayOfWeek"
proof -
  from o have m: "isInt32 month" "month \<noteq> int32Min"
    and d: "isInt32 (dayOfWeek - 1)" "dayOfWeek - 1 \<noteq> int32Min"
    and y: "narrow32 (year + (month - 1) div 12) = year + (month - 1) div 12"
    and w: "narrow32 (weekOfMonth - 1) = weekOfMonth - 1"
      "narrow32 (7 * (weekOfMonth - 1)) = 7 * (weekOfMonth - 1)"
    by (simp_all add: noSignedOverflow_def narrow32_id)
  from run show ?thesis
    unfolding daysSinceEpochFromWeekOfMonthDate_def weekOfMonth_pair [OF m]
      weekOfMonth_days [OF d] w
    by (auto simp: fromFirstDayOfMonth_def Let_def y split: sum.split)
qed

lemma weekOfMonth_lenient:
  "noSignedOverflow year month weekOfMonth dayOfWeek \<Longrightarrow>
   daysSinceEpochFromWeekOfMonthDate E year month weekOfMonth dayOfWeek True =
     fromFirstDayOfMonth E (year + (month - 1) div 12) ((month - 1) mod 12 + 1) weekOfMonth dayOfWeek"
  by (rule weekOfMonth_computation) simp_all

lemma isValidWeekOfMonthDate_month:
  "isValidWeekOfMonthDate E year month weekOfMonth dayOfWeek \<Longrightarrow> 1 \<le> month \<and> month \<le> 12"
  by (simp add: isValidWeekOfMonthDate_def split: if_splits)

lemma weekOfMonth_strict:
  assumes o: "noSignedOverflow year month weekOfMonth dayOfWeek"
  shows "daysSinceEpochFromWeekOfMonthDate E year month weekOfMonth dayOfWeek False =
     (if isValidWeekOfMonthDate E year month weekOfMonth dayOfWeek
      then fromFirstDayOfMonth E year month weekOfMonth dayOfWeek
      else Inl (UserError (if threadSkipErrorDetails E then NoDetails else DateOutOfRange)))"
proof (cases "isValidWeekOfMonthDate E year month weekOfMonth dayOfWeek")
  case True
  from isValidWeekOfMonthDate_month [OF True]
  have "(month - 1) div 12 = 0" "(month - 1) mod 12 + 1 = month" by simp_all
  with True weekOfMonth_computation [OF o, of False E] show ?thesis by simp
next
  case False
  then show ?thesis by (simp add: daysSinceEpochFromWeekOfMonthDate_def)
qed

lemma month_days_all:
  "list_all (\<lambda>d. 28 \<le> d \<and> d \<le> 31) (tl kNormalDays)"
  "list_all (\<lambda>d. 28 \<le> d \<and> d \<le> 31) (tl kLeapDays)"
  by (simp_all add: kNormalDays_def kLeapDays_def)

lemma month_length_range:
  assumes "1 \<le> month" "month \<le> 12"
  shows "28 \<le> getMaxDayOfMonth year month \<and> getMaxDayOfMonth year month \<le> 31"
proof -
  from assms obtain i where i: "nat month = Suc i" "i < 12"
    by (cases "nat month") auto
  have n: "kNormalDays ! Suc i = tl kNormalDays ! i" "kLeapDays ! Suc i = tl kLeapDays ! i"
    using i(2) by (simp_all add: nth_tl kNormalDays_def kLeapDays_def)
  have "i < length (tl kNormalDays)" "i < length (tl kLeapDays)"
    using i(2) by (simp_all add: kNormalDays_def kLeapDays_def)
  with month_days_all
  have "28 \<le> tl kNormalDays ! i \<and> tl kNormalDays ! i \<le> 31"
    "28 \<le> tl kLeapDays ! i \<and> tl kLeapDays ! i \<le> 31"
    by (simp_all add: list_all_length)
  then show ?thesis
    by (simp add: getMaxDayOfMonth_def i(1) n)
qed

lemma isValidDate_first:
  "kMinYear E \<le> year \<Longrightarrow> year \<le> kMaxYear E \<Longrightarrow> 1 \<le> month \<Longrightarrow> month \<le> 12 \<Longrightarrow>
     isValidDate E year month 1"
  using month_length_range [of month year]
  by (simp add: isValidDate_def getMaxDayOfMonth_def split: if_splits)

lemma week_count:
  assumes "1 \<le> fdow" "fdow \<le> 7" "28 \<le> len" "len \<le> (31::int)"
  shows "1 + ceilDiv7 (len - (7 - fdow + 1)) = (fdow - 1 + len + 6) div 7"
    and "(len - (7 - fdow + 1)) smod 7 = (fdow - 1 + len) mod 7"
proof -
  show "1 + ceilDiv7 (len - (7 - fdow + 1)) = (fdow - 1 + len + 6) div 7"
    unfolding ceilDiv7_def ceil_div_7 by (rule week_count_aux)
  have "0 \<le> len - (7 - fdow + 1)" using assms by simp
  then have "(len - (7 - fdow + 1)) smod 7 = (len - (7 - fdow + 1)) mod 7"
    by (simp add: smod_pos_divisor)
  also have "\<dots> = (fdow - 1 + len) mod 7" by (rule last_week_aux)
  finally show "(len - (7 - fdow + 1)) smod 7 = (fdow - 1 + len) mod 7" .
qed

lemma isValidWeekOfMonthDate_weeks:
  assumes y: "1 \<le> year" "year \<le> kMaxYear E" "kMinYear E \<le> year"
    and m: "1 \<le> month" "month \<le> 12"
  shows "\<exists>firstDayOfMonth. daysSinceEpochFromDate E year month 1 = Inr firstDayOfMonth \<and>
    (isValidWeekOfMonthDate E year month weekOfMonth dayOfWeek \<longleftrightarrow>
      (let firstDayOfWeek = extractISODayOfTheWeek firstDayOfMonth;
           days = firstDayOfWeek - 1 + getMaxDayOfMonth year month;
           weeks = (days + 6) div 7
       in 1 \<le> weekOfMonth \<and> weekOfMonth \<le> weeks \<and>
          \<not> (weekOfMonth = 1 \<and> dayOfWeek < firstDayOfWeek) \<and>
          \<not> (weekOfMonth = weeks \<and> days mod 7 \<noteq> 0 \<and> dayOfWeek > days mod 7)))"
proof -
  from daysSinceEpochFromDate_valid [OF isValidDate_first [OF y(3,2) m]]
  obtain f where f: "daysSinceEpochFromDate E year month 1 = Inr f" by blast
  have fd: "1 \<le> extractISODayOfTheWeek f" "extractISODayOfTheWeek f \<le> 7"
    using dayOfTheWeek_range [of f] by simp_all
  note ml = month_length_range [OF m, of year]
  note wc = week_count [OF fd, of "getMaxDayOfMonth year month"]
  have "isValidWeekOfMonthDate E year month weekOfMonth dayOfWeek \<longleftrightarrow>
      (let firstDayOfWeek = extractISODayOfTheWeek f;
           days = firstDayOfWeek - 1 + getMaxDayOfMonth year month;
           weeks = (days + 6) div 7
       in 1 \<le> weekOfMonth \<and> weekOfMonth \<le> weeks \<and>
          \<not> (weekOfMonth = 1 \<and> dayOfWeek < firstDayOfWeek) \<and>
          \<not> (weekOfMonth = weeks \<and> days mod 7 \<noteq> 0 \<and> dayOfWeek > days mod 7))"
    using y m ml wc
    unfolding isValidWeekOfMonthDate_def f Let_def getMaxDayOfMonth_def [symmetric]
    by (auto simp: not_less not_le)
  with f show ?thesis by blast
qed


lemma isValidWeekOfMonthDate_range:
  "isValidWeekOfMonthDate E year month weekOfMonth dayOfWeek \<Longrightarrow>
     1 \<le> year \<and> year \<le> kMaxYear E \<and> 1 \<le> month \<and> month \<le> 12"
  by (simp add: isValidWeekOfMonthDate_def split: if_splits)

text \<open>
  Claim C4, as amended. With \<open>lenient\<close> true, \<open>daysSinceEpochFromWeekOfMonthDate\<close>
  first normalises the month into 1..12, the excess carried into the year by flooring
  division (month 13 is month 1 of the next year, month 0 is month 12 of the year
  before), and computes the day count from the first day of the normalised month, with
  no validation. With \<open>lenient\<close> false it validates before it normalises: it returns an
  error unless the year is in \<open>1..kMaxYear\<close>, the month is in 1..12 (so month 13 and
  month 0 are errors), the week is between 1 and the number of weeks that the month
  spans, and the day of the week is neither before the first day of the month in week 1
  nor after its last day in the last week; the day of the week is not checked otherwise.
  On arguments that pass, it computes from the first day of that month. This holds for
  the arguments on which the 32-bit arithmetic of the source does not overflow.
\<close>

theorem daysSinceEpochFromWeekOfMonthDate_normalizes:
  assumes "noSignedOverflow year month weekOfMonth dayOfWeek"
  shows
   "daysSinceEpochFromWeekOfMonthDate E year month weekOfMonth dayOfWeek True =
      fromFirstDayOfMonth E (year + (month - 1) div 12) ((month - 1) mod 12 + 1)
        weekOfMonth dayOfWeek \<and>
    1 \<le> (month - 1) mod 12 + 1 \<and> (month - 1) mod 12 + 1 \<le> 12 \<and>
    daysSinceEpochFromWeekOfMonthDate E year month weekOfMonth dayOfWeek False =
      (if isValidWeekOfMonthDate E year month weekOfMonth dayOfWeek
       then fromFirstDayOfMonth E year month weekOfMonth dayOfWeek
       else Inl (UserError (if threadSkipErrorDetails E then NoDetails else DateOutOfRange))) \<and>
    (isValidWeekOfMonthDate E year month weekOfMonth dayOfWeek \<longrightarrow>
       1 \<le> year \<and> year \<le> kMaxYear E \<and> 1 \<le> month \<and> month \<le> 12) \<and>
    (1 \<le> year \<and> year \<le> kMaxYear E \<and> kMinYear E \<le> year \<and> 1 \<le> month \<and> month \<le> 12 \<longrightarrow>
       (\<exists>firstDayOfMonth. daysSinceEpochFromDate E year month 1 = Inr firstDayOfMonth \<and>
          (isValidWeekOfMonthDate E year month weekOfMonth dayOfWeek \<longleftrightarrow>
            (let firstDayOfWeek = extractISODayOfTheWeek firstDayOfMonth;
                 days = firstDayOfWeek - 1 + getMaxDayOfMonth year month;
                 weeks = (days + 6) div 7
             in 1 \<le> weekOfMonth \<and> weekOfMonth \<le> weeks \<and>
                \<not> (weekOfMonth = 1 \<and> dayOfWeek < firstDayOfWeek) \<and>
                \<not> (weekOfMonth = weeks \<and> days mod 7 \<noteq> 0 \<and> dayOfWeek > days mod 7)))))"
proof -
  note a = weekOfMonth_lenient [OF assms, of E]
  note c = weekOfMonth_strict [OF assms, of E]
  have "0 \<le> (month - 1) mod 12" by simp
  moreover have "(month - 1) mod 12 < 12" by simp
  ultimately have b: "1 \<le> (month - 1) mod 12 + 1 \<and> (month - 1) mod 12 + 1 \<le> 12" by linarith
  show ?thesis
    using a b c isValidWeekOfMonthDate_range [of E year month weekOfMonth dayOfWeek]
      isValidWeekOfMonthDate_weeks [of year E month weekOfMonth dayOfWeek]
    by blast
qed

theorem daysSinceEpochFromWeekOfMonthDate_normalizes_witness:
  "noSignedOverflow 2020 13 1 5 \<and>
   daysSinceEpochFromWeekOfMonthDate sampleEnv 2020 13 1 5 True =
     fromFirstDayOfMonth sampleEnv 2021 1 1 5 \<and>
   fromFirstDayOfMonth sampleEnv 2021 1 1 5 = Inr 18628 \<and>
   daysSinceEpochFromWeekOfMonthDate sampleEnv 2020 0 1 1 True =
     fromFirstDayOfMonth sampleEnv 2019 12 1 1 \<and>
   daysSinceEpochFromWeekOfMonthDate sampleEnv 2020 13 1 5 False =
     Inl (UserError DateOutOfRange) \<and>
   daysSinceEpochFromWeekOfMonthDate sampleEnv 2021 1 1 5 False = Inr 18628 \<and>
   isValidWeekOfMonthDate sampleEnv 2020 2 5 6 \<and>
   \<not> isValidWeekOfMonthDate sampleEnv 2020 2 6 1"
proof -
  have o: "noSignedOverflow 2020 13 1 5" "noSignedOverflow 2020 0 1 1"
    "noSignedOverflow 2021 1 1 5" by code_simp+
  have n: "(2020::int) + (13 - 1) div 12 = 2021" "((13::int) - 1) mod 12 + 1 = 1"
    "(2020::int) + (0 - 1) div 12 = 2019" "((0::int) - 1) mod 12 + 1 = 12" by simp_all
  have v: "\<not> isValidWeekOfMonthDate sampleEnv 2020 13 1 5"
    "isValidWeekOfMonthDate sampleEnv 2021 1 1 5" by code_simp+
  have s: "\<not> threadSkipErrorDetails sampleEnv" by code_simp
  have r: "fromFirstDayOfMonth sampleEnv 2021 1 1 5 = Inr 18628" by code_simp
  have w: "isValidWeekOfMonthDate sampleEnv 2020 2 5 6" "\<not> isValidWeekOfMonthDate sampleEnv 2020 2 6 1"
    by code_simp+
  note t = daysSinceEpochFromWeekOfMonthDate_normalizes [THEN conjunct1]
  note u = daysSinceEpochFromWeekOfMonthDate_normalizes
    [THEN conjunct2, THEN conjunct2, THEN conjunct2, THEN conjunct1]
  have 1: "daysSinceEpochFromWeekOfMonthDate sampleEnv 2020 13 1 5 True =
      fromFirstDayOfMonth sampleEnv 2021 1 1 5"
    using t [OF o(1), of sampleEnv] by (simp only: n)
  have 2: "daysSinceEpochFromWeekOfMonthDate sampleEnv 2020 0 1 1 True =
      fromFirstDayOfMonth sampleEnv 2019 12 1 1"
    using t [OF o(2), of sampleEnv] by (simp only: n)
  have 3: "daysSinceEpochFromWeekOfMonthDate sampleEnv 2020 13 1 5 False =
      Inl (UserError DateOutOfRange)"
    using u [OF o(1), of sampleEnv] v(1) s by simp
  have 4: "daysSinceEpochFromWeekOfMonthDate sampleEnv 2021 1 1 5 False = Inr 18628"
    using u [OF o(3), of sampleEnv] v(2) r by simp
  show ?thesis using o(1) 1 2 3 4 r w by simp
qed

text \<open>
  The claim as stated fails when \<open>lenient\<close> is false. Month 13 of 2020 is not
  normalised but rejected, although week 1, day 5 of January 2021 is a valid date; and a
  day of the week of 100 in week 2 of February 2020 is accepted.
\<close>

theorem daysSinceEpochFromWeekOfMonthDate_strict_counterexample:
  "daysSinceEpochFromWeekOfMonthDate sampleEnv 2020 13 1 5 False =
     Inl (UserError DateOutOfRange) \<and>
   daysSinceEpochFromWeekOfMonthDate sampleEnv 2021 1 1 5 False = Inr 18628 \<and>
   daysSinceEpochFromWeekOfMonthDate sampleEnv 2020 13 1 5 True = Inr 18628 \<and>
   daysSinceEpochFromWeekOfMonthDate sampleEnv 2020 2 2 100 False = Inr 18295"
  by code_simp

end
